theory Spec2Isabelle
  imports Complex_Main "HOL-Library.AList"
begin

section \<open>The point-cloud model of labelCloud (\<open>labelCloud/model/point_cloud.py\<close>)\<close>

text \<open>
  A shallow embedding of the class \<open>PointCloud\<close> and of \<open>calculate_init_translation\<close>.
  Python floats and numpy float arrays are read as real numbers (no NaN), and arithmetic
  on them is exact, so that \<open>astype(np.float32)\<close> is the identity here; the one
  exception is the addition inside Python's \<open>%\<close>, which is rounded to a double as the
  interpreter does it, because the range of a stored rotation depends on it. An array of shape \<open>(N, 3)\<close> is a list of
  triples, a Python exception is a value of \<open>py_error\<close>, the attributes of the object
  are the fields of a record, and the OpenGL context is a store of buffers that is passed
  through the calls that touch it.
\<close>

subsection \<open>Values and errors\<close>

type_synonym point3 = "real \<times> real \<times> real"

datatype py_error = ValueError | IndexError | KeyError | TypeError | AttributeError

definition add3 :: "point3 \<Rightarrow> point3 \<Rightarrow> point3" where
  "add3 a b = (case a of (a0, a1, a2) \<Rightarrow> case b of (b0, b1, b2) \<Rightarrow> (a0 + b0, a1 + b1, a2 + b2))"

definition sub3 :: "point3 \<Rightarrow> point3 \<Rightarrow> point3" where
  "sub3 a b = (case a of (a0, a1, a2) \<Rightarrow> case b of (b0, b1, b2) \<Rightarrow> (a0 - b0, a1 - b1, a2 - b2))"

definition mul3 :: "point3 \<Rightarrow> point3 \<Rightarrow> point3" where
  "mul3 a b = (case a of (a0, a1, a2) \<Rightarrow> case b of (b0, b1, b2) \<Rightarrow> (a0 * b0, a1 * b1, a2 * b2))"

definition neg3 :: "point3 \<Rightarrow> point3" where
  "neg3 a = (case a of (a0, a1, a2) \<Rightarrow> (- a0, - a1, - a2))"

definition scale3 :: "point3 \<Rightarrow> real \<Rightarrow> point3" where
  "scale3 a s = (case a of (a0, a1, a2) \<Rightarrow> (a0 * s, a1 * s, a2 * s))"

text \<open>\<open>a[i]\<close> for a row of three and \<open>points[:, i]\<close> for a column.\<close>

definition axis :: "nat \<Rightarrow> point3 \<Rightarrow> real" where
  "axis i a = (case a of (a0, a1, a2) \<Rightarrow> if i = 0 then a0 else if i = 1 then a1 else a2)"

definition column :: "nat \<Rightarrow> point3 list \<Rightarrow> real list" where
  "column i ps = map (axis i) ps"

text \<open>\<open>np.linalg.norm\<close> of a vector of three: the Euclidean norm.\<close>

definition linalg_norm :: "point3 \<Rightarrow> real" where
  "linalg_norm a = (case a of (a0, a1, a2) \<Rightarrow> sqrt (a0 * a0 + a1 * a1 + a2 * a2))"

text \<open>Python's \<open>min(a, b)\<close> keeps \<open>a\<close> unless \<open>b < a\<close>.\<close>

definition py_min :: "real \<Rightarrow> real \<Rightarrow> real" where
  "py_min a b = (if b < a then b else a)"

text \<open>
  Rounding a real number to the nearest double, ties to even, for magnitudes in the
  normal range (the values rounded here lie between \<open>2 ^ -44\<close> and 360): the binade is
  the exponent of the leading bit, a double has 52 fraction bits below it.
\<close>

definition binade :: "real \<Rightarrow> int" where
  "binade x = \<lfloor>log 2 \<bar>x\<bar>\<rfloor>"

definition ulp :: "real \<Rightarrow> real" where
  "ulp x = 2 powr of_int (binade x - 52)"

definition round_half_even :: "real \<Rightarrow> int" where
  "round_half_even q =
     (let f = \<lfloor>q\<rfloor>; r = q - of_int f
      in if r < 1 / 2 then f else if 1 / 2 < r then f + 1 else if even f then f else f + 1)"

definition round_double :: "real \<Rightarrow> real" where
  "round_double x = (if x = 0 then 0 else of_int (round_half_even (x / ulp x)) * ulp x)"

text \<open>
  Python's \<open>x % y\<close> on floats, as CPython computes it: the C \<open>fmod\<close> (the remainder of
  the quotient truncated towards zero, with the sign of \<open>x\<close>; it is exact), and, when
  it is not zero and its sign differs from the sign of \<open>y\<close>, the floating-point sum
  \<open>mod + y\<close>. On Python integers \<open>%\<close> is exact; for the integers that are doubles
  the rounding changes nothing.
\<close>

definition trunc_quotient :: "real \<Rightarrow> real \<Rightarrow> int" where
  "trunc_quotient x y = (if 0 \<le> x / y then \<lfloor>x / y\<rfloor> else \<lceil>x / y\<rceil>)"

definition fmod :: "real \<Rightarrow> real \<Rightarrow> real" where
  "fmod x y = x - y * of_int (trunc_quotient x y)"

definition py_mod :: "real \<Rightarrow> real \<Rightarrow> real" where
  "py_mod x y =
     (let m = fmod x y
      in if m \<noteq> 0 \<and> ((y < 0) \<noteq> (m < 0)) then round_double (m + y) else m)"

subsection \<open>Configuration and helpers from outside the file\<close>

text \<open>
  The options the file reads from \<open>config\<close>, and the two functions it imports from
  \<open>utils.color\<close>, whose code is not part of the file: they are parameters here.
\<close>

record config =
  far_plane :: real
  SEGMENTATION :: bool
  label_color_mix_ratio :: real
  COLORLESS_COLORIZE :: bool
  COLORLESS_COLOR :: point3
  get_distinct_colors :: "nat \<Rightarrow> point3 list"
  colorize_points_with_height :: "point3 list \<Rightarrow> real \<Rightarrow> real \<Rightarrow> point3 list"

subsection \<open>Geometry\<close>

definition calculate_init_translation :: "config \<Rightarrow> point3 \<Rightarrow> point3 \<Rightarrow> point3 \<Rightarrow> point3" where
  "calculate_init_translation cfg c mins maxs =
     (let zoom = py_min (linalg_norm (sub3 maxs mins)) (far_plane cfg * 0.9)
      in neg3 (add3 c (0, 0, zoom)))"

text \<open>
  Line 66: \<open>tuple(np.sum(points[:, i]) / len(points) for i in range(3))\<close>. For no points
  numpy divides 0.0 by 0 to NaN with a warning; the constructor then stops at \<open>np.amin\<close>,
  so the value for the empty list is never stored.
\<close>

definition compute_center :: "point3 list \<Rightarrow> point3" where
  "compute_center ps =
     (sum_list (column 0 ps) / real (length ps),
      sum_list (column 1 ps) / real (length ps),
      sum_list (column 2 ps) / real (length ps))"

text \<open>\<open>np.amin(points, axis=0)\<close> and \<open>np.amax(points, axis=0)\<close>: a ValueError on a zero-size array.\<close>

definition reduce_axis :: "(real \<Rightarrow> real \<Rightarrow> real) \<Rightarrow> nat \<Rightarrow> point3 list \<Rightarrow> real" where
  "reduce_axis f i ps = (case column i ps of [] \<Rightarrow> 0 | x # xs \<Rightarrow> fold f xs x)"

definition np_amin :: "point3 list \<Rightarrow> py_error + point3" where
  "np_amin ps = (if ps = [] then Inl ValueError
                 else Inr (reduce_axis min 0 ps, reduce_axis min 1 ps, reduce_axis min 2 ps))"

definition np_amax :: "point3 list \<Rightarrow> py_error + point3" where
  "np_amax ps = (if ps = [] then Inl ValueError
                 else Inr (reduce_axis max 0 ps, reduce_axis max 1 ps, reduce_axis max 2 ps))"

subsection \<open>The object\<close>

record PointCloud =
  points :: "point3 list"
  colors :: "point3 list option"
  label_definition :: "(string \<times> int) list"
  labels :: "int list option"
  label_color_map :: "point3 list option"
  mix_ratio :: "real option"
  center :: point3
  pcd_mins :: point3
  pcd_maxs :: point3
  init_translation :: point3
  init_rotation :: point3
  trans_x :: real
  trans_y :: real
  trans_z :: real
  rot_x :: real
  rot_y :: real
  rot_z :: real
  position_vbo :: "nat option"
  color_vbo :: "nat option"
  label_vbo :: "nat option"

definition colorless :: "PointCloud \<Rightarrow> bool" where
  "colorless pc = (colors pc = None)"

definition get_rotations :: "PointCloud \<Rightarrow> point3" where
  "get_rotations pc = (rot_x pc, rot_y pc, rot_z pc)"

definition get_translation :: "PointCloud \<Rightarrow> point3" where
  "get_translation pc = (trans_x pc, trans_y pc, trans_z pc)"

definition get_no_of_points :: "PointCloud \<Rightarrow> nat" where
  "get_no_of_points pc = length (points pc)"

subsection \<open>Setters and reset\<close>

definition set_rot_x :: "real \<Rightarrow> PointCloud \<Rightarrow> PointCloud" where
  "set_rot_x angle pc = pc\<lparr>rot_x := py_mod angle 360\<rparr>"

definition set_rot_y :: "real \<Rightarrow> PointCloud \<Rightarrow> PointCloud" where
  "set_rot_y angle pc = pc\<lparr>rot_y := py_mod angle 360\<rparr>"

definition set_rot_z :: "real \<Rightarrow> PointCloud \<Rightarrow> PointCloud" where
  "set_rot_z angle pc = pc\<lparr>rot_z := py_mod angle 360\<rparr>"

definition set_rotations :: "real \<Rightarrow> real \<Rightarrow> real \<Rightarrow> PointCloud \<Rightarrow> PointCloud" where
  "set_rotations x y z pc =
     pc\<lparr>rot_x := py_mod x 360, rot_y := py_mod y 360, rot_z := py_mod z 360\<rparr>"

definition set_trans_x :: "real \<Rightarrow> PointCloud \<Rightarrow> PointCloud" where
  "set_trans_x val pc = pc\<lparr>trans_x := val\<rparr>"

definition set_trans_y :: "real \<Rightarrow> PointCloud \<Rightarrow> PointCloud" where
  "set_trans_y val pc = pc\<lparr>trans_y := val\<rparr>"

definition set_trans_z :: "real \<Rightarrow> PointCloud \<Rightarrow> PointCloud" where
  "set_trans_z val pc = pc\<lparr>trans_z := val\<rparr>"

definition set_translations :: "real \<Rightarrow> real \<Rightarrow> real \<Rightarrow> PointCloud \<Rightarrow> PointCloud" where
  "set_translations x y z pc = pc\<lparr>trans_x := x, trans_y := y, trans_z := z\<rparr>"

text \<open>Lines 302 to 304: both assignments read \<open>self.init_rotation\<close>.\<close>

definition reset_perspective :: "PointCloud \<Rightarrow> PointCloud" where
  "reset_perspective pc =
     (case init_rotation pc of (t0, t1, t2) \<Rightarrow>
        let pc1 = pc\<lparr>trans_x := t0, trans_y := t1, trans_z := t2\<rparr>
        in case init_rotation pc1 of (r0, r1, r2) \<Rightarrow> pc1\<lparr>rot_x := r0, rot_y := r1, rot_z := r2\<rparr>)"

text \<open>The operations that change the pose, and a run of them on one object.\<close>

datatype mutation =
    SetRotX real | SetRotY real | SetRotZ real | SetRotations real real real
  | SetTransX real | SetTransY real | SetTransZ real | SetTranslations real real real
  | ResetPerspective

fun apply_mutation :: "mutation \<Rightarrow> PointCloud \<Rightarrow> PointCloud" where
  "apply_mutation (SetRotX a) pc = set_rot_x a pc"
| "apply_mutation (SetRotY a) pc = set_rot_y a pc"
| "apply_mutation (SetRotZ a) pc = set_rot_z a pc"
| "apply_mutation (SetRotations x y z) pc = set_rotations x y z pc"
| "apply_mutation (SetTransX v) pc = set_trans_x v pc"
| "apply_mutation (SetTransY v) pc = set_trans_y v pc"
| "apply_mutation (SetTransZ v) pc = set_trans_z v pc"
| "apply_mutation (SetTranslations x y z) pc = set_translations x y z pc"
| "apply_mutation ResetPerspective pc = reset_perspective pc"

definition run_mutations :: "mutation list \<Rightarrow> PointCloud \<Rightarrow> PointCloud" where
  "run_mutations ms pc = fold apply_mutation ms pc"

subsection \<open>Blending the label colours\<close>

text \<open>
  Indexing an array along its first axis with an integer: numpy counts a negative index
  from the end and raises IndexError outside \<open>[-n, n)\<close>. Indexing with an integer array
  does so for each entry, in order.
\<close>

definition np_index :: "'a list \<Rightarrow> int \<Rightarrow> py_error + 'a" where
  "np_index xs i =
     (let n = int (length xs)
      in if 0 \<le> i \<and> i < n then Inr (xs ! nat i)
         else if - n \<le> i \<and> i < 0 then Inr (xs ! nat (i + n))
         else Inl IndexError)"

fun fancy_index :: "'a list \<Rightarrow> int list \<Rightarrow> py_error + 'a list" where
  "fancy_index xs [] = Inr []"
| "fancy_index xs (i # rest) =
     (case np_index xs i of
        Inl e \<Rightarrow> Inl e
      | Inr r \<Rightarrow> (case fancy_index xs rest of Inl e \<Rightarrow> Inl e | Inr rs \<Rightarrow> Inr (r # rs)))"

definition one_hot :: "nat \<Rightarrow> nat \<Rightarrow> real list" where
  "one_hot n i = map (\<lambda>j. if i = j then 1 else 0) [0..<n]"

definition np_eye :: "nat \<Rightarrow> real list list" where
  "np_eye n = map (one_hot n) [0..<n]"

text \<open>
  \<open>np.dot(a, b)\<close> for \<open>a\<close> of shape \<open>(N, n)\<close>, given by its rows and \<open>n\<close>, and \<open>b\<close> of
  shape \<open>(m, 3)\<close>: a ValueError unless \<open>n = m\<close>.
\<close>

definition dot_row :: "real list \<Rightarrow> point3 list \<Rightarrow> point3" where
  "dot_row r b =
     (sum_list (map2 (*) r (column 0 b)),
      sum_list (map2 (*) r (column 1 b)),
      sum_list (map2 (*) r (column 2 b)))"

definition np_dot :: "nat \<Rightarrow> real list list \<Rightarrow> point3 list \<Rightarrow> py_error + point3 list" where
  "np_dot n a b = (if n = length b then Inr (map (\<lambda>r. dot_row r b) a) else Inl ValueError)"

text \<open>
  \<open>a + b\<close> for two arrays of shapes \<open>(N, 3)\<close> and \<open>(M, 3)\<close>: numpy broadcasts a first
  axis of length 1 and raises ValueError when the lengths differ otherwise.
\<close>

definition np_add :: "point3 list \<Rightarrow> point3 list \<Rightarrow> py_error + point3 list" where
  "np_add a b =
     (if length a = length b then Inr (map2 add3 a b)
      else if length a = 1 then Inr (map (add3 (hd a)) b)
      else if length b = 1 then Inr (map (\<lambda>x. add3 x (hd b)) a)
      else Inl ValueError)"

text \<open>
  The property \<open>label_colors\<close>. With labels, but without the attributes that the
  constructor sets together with them, Python raises on the missing operand.
\<close>

definition label_colors :: "PointCloud \<Rightarrow> py_error + point3 list option" where
  "label_colors pc =
     (case labels pc of
        None \<Rightarrow> Inr (colors pc)
      | Some ls \<Rightarrow>
          (case fancy_index (np_eye (length (label_definition pc))) ls of
             Inl e \<Rightarrow> Inl e
           | Inr label_one_hot \<Rightarrow>
               (case label_color_map pc of
                  None \<Rightarrow> Inl TypeError
                | Some m \<Rightarrow>
                    (case np_dot (length (label_definition pc)) label_one_hot m of
                       Inl e \<Rightarrow> Inl e
                     | Inr cs \<Rightarrow>
                         (case mix_ratio pc of
                            None \<Rightarrow> Inl AttributeError
                          | Some r \<Rightarrow>
                              (case colors pc of
                                 None \<Rightarrow> Inl TypeError
                               | Some base \<Rightarrow>
                                   (case np_add (map (\<lambda>c. scale3 c r) cs)
                                           (map (\<lambda>c. scale3 c (1 - r)) base) of
                                      Inl e \<Rightarrow> Inl e
                                    | Inr out \<Rightarrow> Inr (Some out))))))))"

subsection \<open>The OpenGL buffers\<close>

text \<open>
  The context is the list of its buffer objects, a buffer being the data last uploaded to
  it, if any; a handle is a position in the list.
\<close>

type_synonym gl_state = "point3 list option list"

definition glGenBuffers :: "nat \<Rightarrow> gl_state \<Rightarrow> nat list \<times> gl_state" where
  "glGenBuffers n gl = ([length gl..<length gl + n], gl @ replicate n None)"

definition glBufferData :: "nat \<Rightarrow> point3 list \<Rightarrow> gl_state \<Rightarrow> gl_state" where
  "glBufferData vbo data gl = gl[vbo := Some data]"

text \<open>
  \<open>create_buffers\<close>: the three handles are generated first; the list of pairs, and with
  it \<open>self.label_colors\<close>, is evaluated before the first upload; \<open>data.nbytes\<close> raises
  AttributeError on \<open>None\<close>.
\<close>

definition create_buffers :: "PointCloud \<Rightarrow> gl_state \<Rightarrow> (py_error + PointCloud) \<times> gl_state" where
  "create_buffers pc gl =
     (case glGenBuffers 3 gl of (hs, gl1) \<Rightarrow>
        let pc1 = pc\<lparr>position_vbo := Some (hs ! 0), color_vbo := Some (hs ! 1),
                     label_vbo := Some (hs ! 2)\<rparr>
        in case label_colors pc1 of
             Inl e \<Rightarrow> (Inl e, gl1)
           | Inr lc \<Rightarrow>
               let gl2 = glBufferData (hs ! 0) (points pc1) gl1
               in case colors pc1 of
                    None \<Rightarrow> (Inl AttributeError, gl2)
                  | Some cs \<Rightarrow>
                      let gl3 = glBufferData (hs ! 1) cs gl2
                      in case lc of
                           None \<Rightarrow> (Inl AttributeError, gl3)
                         | Some l \<Rightarrow> (Inr pc1, glBufferData (hs ! 2) l gl3))"

subsection \<open>Construction\<close>

text \<open>
  \<open>__init__\<close>, without the path and the log output, in two parts. \<open>colors\<close> is an
  ndarray or absent; the perspective's tuples are absent or three numbers, and a tuple of
  three is true for \<open>or\<close>.

  The first part is the attributes as lines 54 to 96 assign them, given the extents that
  lines 67 and 68 computed.
\<close>

definition init_attributes ::
  "config \<Rightarrow> point3 list \<Rightarrow> (string \<times> int) list \<Rightarrow> point3 list option \<Rightarrow> int list option \<Rightarrow>
   point3 option \<Rightarrow> point3 option \<Rightarrow> point3 \<Rightarrow> point3 \<Rightarrow> PointCloud" where
  "init_attributes cfg pts ld cols segmentation_labels init_t init_r mins maxs =
     (let colors0 = (case cols of None \<Rightarrow> None | Some c \<Rightarrow> if length c > 0 then Some c else None);
          labels0 = (if SEGMENTATION cfg then segmentation_labels else None);
          lcm = (if SEGMENTATION cfg then Some (get_distinct_colors cfg (length ld)) else None);
          mr = (if SEGMENTATION cfg then Some (label_color_mix_ratio cfg) else None);
          c = compute_center pts;
          it = (case init_t of
                  Some t \<Rightarrow> t
                | None \<Rightarrow> calculate_init_translation cfg c mins maxs);
          ir = (case init_r of Some r \<Rightarrow> r | None \<Rightarrow> (0, 0, 0));
          pc0 = \<lparr>points = pts, colors = colors0, label_definition = ld,
                 labels = labels0, label_color_map = lcm, mix_ratio = mr,
                 center = c, pcd_mins = mins, pcd_maxs = maxs,
                 init_translation = it, init_rotation = ir,
                 trans_x = fst it, trans_y = fst (snd it), trans_z = snd (snd it),
                 rot_x = fst ir, rot_y = fst (snd ir), rot_z = snd (snd ir),
                 position_vbo = None, color_vbo = None, label_vbo = None\<rparr>
      in if colorless pc0
         then if COLORLESS_COLORIZE cfg
              then pc0\<lparr>colors := Some (colorize_points_with_height cfg
                     (points pc0) (axis 2 (pcd_mins pc0)) (axis 2 (pcd_maxs pc0)))\<rparr>
              else pc0\<lparr>colors := Some (map (\<lambda>p. mul3 (1, 1, 1) (COLORLESS_COLOR cfg))
                     (points pc0))\<rparr>
         else pc0)"

text \<open>
  The whole constructor: the extents raise on an empty array, before anything touches the
  context, and the buffers come last. The result comes with the context as the call
  leaves it, also when it raises.
\<close>

definition PointCloud_init ::
  "config \<Rightarrow> point3 list \<Rightarrow> (string \<times> int) list \<Rightarrow> point3 list option \<Rightarrow> int list option \<Rightarrow>
   point3 option \<Rightarrow> point3 option \<Rightarrow> bool \<Rightarrow> gl_state \<Rightarrow> (py_error + PointCloud) \<times> gl_state" where
  "PointCloud_init cfg pts ld cols segmentation_labels init_t init_r write_buffer gl =
     (case np_amin pts of
        Inl e \<Rightarrow> (Inl e, gl)
      | Inr mins \<Rightarrow>
          (case np_amax pts of
             Inl e \<Rightarrow> (Inl e, gl)
           | Inr maxs \<Rightarrow>
               let pc = init_attributes cfg pts ld cols segmentation_labels init_t init_r mins maxs
               in if write_buffer then create_buffers pc gl else (Inr pc, gl)))"

subsection \<open>Counting and reporting\<close>

text \<open>
  A dict is an association list with distinct keys, in insertion order. The comprehension
  of \<open>int2label\<close> lets a later class overwrite an earlier one with the same index.
\<close>

definition int2label :: "PointCloud \<Rightarrow> (int \<rightharpoonup> string)" where
  "int2label pc = fold (\<lambda>(label, ind) m. m(ind \<mapsto> label)) (label_definition pc) Map.empty"

text \<open>\<open>np.unique(labels, return_counts=True)\<close>: the sorted distinct values and how often each occurs.\<close>

definition np_unique_counts :: "int list \<Rightarrow> (int \<times> nat) list" where
  "np_unique_counts ls = (let indexes = sort (remdups ls) in zip indexes (map (count_list ls) indexes))"

fun count_loop ::
  "(int \<rightharpoonup> string) \<Rightarrow> (int \<times> nat) list \<Rightarrow> (string \<times> nat) list \<Rightarrow> py_error + (string \<times> nat) list" where
  "count_loop i2l [] counter = Inr counter"
| "count_loop i2l ((ind, count) # rest) counter =
     (case i2l ind of
        None \<Rightarrow> Inl KeyError
      | Some name \<Rightarrow> count_loop i2l rest (AList.update name count counter))"

definition label_counts :: "PointCloud \<Rightarrow> py_error + (string \<times> nat) list option" where
  "label_counts pc =
     (case labels pc of
        None \<Rightarrow> Inr None
      | Some ls \<Rightarrow>
          if label_definition pc = [] then Inr None
          else (let counter = map (\<lambda>(k, v). (k, 0)) (label_definition pc)
                in case count_loop (int2label pc) (np_unique_counts ls) counter of
                     Inl e \<Rightarrow> Inl e
                   | Inr c \<Rightarrow> Inr (Some c)))"

text \<open>
  The truth value of an ndarray of shape \<open>(N, 3)\<close>: false for no element (numpy before
  2.2, with a warning), a ValueError for more than one element, and \<open>3 * N\<close> is never 1.
\<close>

definition array_truth :: "point3 list \<Rightarrow> py_error + bool" where
  "array_truth a = (if 3 * length a = 0 then Inr False else Inl ValueError)"

definition get_no_of_colors :: "PointCloud \<Rightarrow> py_error + nat" where
  "get_no_of_colors pc =
     (case colors pc of
        None \<Rightarrow> Inr 0
      | Some cs \<Rightarrow>
          (case array_truth cs of
             Inl e \<Rightarrow> Inl e
           | Inr b \<Rightarrow> Inr (if b then length cs else 0)))"



subsection \<open>Normalised rotations, and concrete inputs\<close>

definition normalized :: "real \<Rightarrow> bool" where
  "normalized r = (0 \<le> r \<and> r < 360)"

definition normalized3 :: "point3 \<Rightarrow> bool" where
  "normalized3 r = (case r of (x, y, z) \<Rightarrow> normalized x \<and> normalized y \<and> normalized z)"

text \<open>
  The exact floor-mod of the specification; what a rotation setter stores for an angle,
  in its terms: the floor-mod, rounded to a double when the angle is negative; and the
  closed range \<open>[0, 360]\<close> that the rounded value can reach.
\<close>

definition floor_mod :: "real \<Rightarrow> real \<Rightarrow> real" where
  "floor_mod x y = x - y * of_int \<lfloor>x / y\<rfloor>"

definition stored_rotation :: "real \<Rightarrow> real" where
  "stored_rotation a =
     (let r = floor_mod a 360 in if a < 0 \<and> r \<noteq> 0 then round_double r else r)"

definition within_turn :: "real \<Rightarrow> bool" where
  "within_turn r = (0 \<le> r \<and> r \<le> 360)"

definition within_turn3 :: "point3 \<Rightarrow> bool" where
  "within_turn3 r = (case r of (x, y, z) \<Rightarrow> within_turn x \<and> within_turn y \<and> within_turn z)"

text \<open>
  A configuration with segmentation off and the flat fallback colour, one with
  segmentation on, and the cloud of the single point \<open>(0, 0, 5)\<close> as the constructor
  builds it under the first, without colours, perspective or buffers.
\<close>

definition example_config :: config where
  "example_config =
     \<lparr>far_plane = 10, SEGMENTATION = False, label_color_mix_ratio = 3 / 10,
      COLORLESS_COLORIZE = False, COLORLESS_COLOR = (1 / 2, 1 / 2, 1 / 2),
      get_distinct_colors = (\<lambda>n. map (\<lambda>k. (1, real k / real (n + 1), 0)) [0..<n]),
      colorize_points_with_height = (\<lambda>ps lo hi. map (\<lambda>p. (0, 0, 1)) ps)\<rparr>"

definition segmentation_config :: config where
  "segmentation_config = example_config\<lparr>SEGMENTATION := True\<rparr>"

definition example_cloud :: PointCloud where
  "example_cloud =
     \<lparr>points = [(0, 0, 5)], colors = Some [(1 / 2, 1 / 2, 1 / 2)], label_definition = [],
      labels = None, label_color_map = None, mix_ratio = None,
      center = (0, 0, 5), pcd_mins = (0, 0, 5), pcd_maxs = (0, 0, 5),
      init_translation = (0, 0, - 5), init_rotation = (0, 0, 0),
      trans_x = 0, trans_y = 0, trans_z = - 5, rot_x = 0, rot_y = 0, rot_z = 0,
      position_vbo = None, color_vbo = None, label_vbo = None\<rparr>"

subsection \<open>The centroid in the words of the specification\<close>

text \<open>The arithmetic mean of the values of one axis: their sum over all indices, by the count.\<close>

definition arithmetic_mean :: "real list \<Rightarrow> real" where
  "arithmetic_mean xs = (\<Sum>i<length xs. xs ! i) / real (length xs)"

subsection \<open>Label values as row indices\<close>

text \<open>
  The label values that index \<open>n\<close> rows without an IndexError, and the row a label
  selects: a negative label counts from the last row.
\<close>

definition index_in_range :: "nat \<Rightarrow> int \<Rightarrow> bool" where
  "index_in_range n l = (- int n \<le> l \<and> l < int n)"

definition wrap_index :: "nat \<Rightarrow> int \<Rightarrow> nat" where
  "wrap_index n l = nat (if l < 0 then l + int n else l)"

text \<open>The blend of one point: \<open>label_color * mix_ratio + base_color * (1 - mix_ratio)\<close>.\<close>

definition blend :: "real \<Rightarrow> point3 \<Rightarrow> point3 \<Rightarrow> point3" where
  "blend r label_color base_color = add3 (scale3 label_color r) (scale3 base_color (1 - r))"

text \<open>
  The cloud of the single point \<open>(0, 0, 5)\<close> with the label \<open>-1\<close>, as the constructor
  builds it with segmentation on and two classes.
\<close>

definition labelled_cloud :: PointCloud where
  "labelled_cloud =
     \<lparr>points = [(0, 0, 5)], colors = Some [(1 / 2, 1 / 2, 1 / 2)],
      label_definition = [(''unassigned'', 0), (''car'', 1)],
      labels = Some [- 1], label_color_map = Some [(1, 0, 0), (1, 1 / 3, 0)],
      mix_ratio = Some (3 / 10),
      center = (0, 0, 5), pcd_mins = (0, 0, 5), pcd_maxs = (0, 0, 5),
      init_translation = (0, 0, - 5), init_rotation = (0, 0, 0),
      trans_x = 0, trans_y = 0, trans_z = - 5, rot_x = 0, rot_y = 0, rot_z = 0,
      position_vbo = None, color_vbo = None, label_vbo = None\<rparr>"

text \<open>Three points of three classes, two of them labelled 1 and one labelled 0.\<close>

definition counted_cloud :: PointCloud where
  "counted_cloud =
     labelled_cloud\<lparr>points := [(0, 0, 5), (1, 2, 3), (4, 4, 4)],
                     colors := Some [(1, 0, 0), (0, 1, 0), (0, 0, 1)],
                     label_definition := [(''unassigned'', 0), (''car'', 1), (''tree'', 2)],
                     labels := Some [1, 0, 1]\<rparr>"

section \<open>Properties\<close>

subsection \<open>Evaluation and arithmetic helpers\<close>

lemmas init_simps = PointCloud_init_def init_attributes_def np_amin_def np_amax_def
  reduce_axis_def column_def axis_def compute_center_def calculate_init_translation_def py_min_def linalg_norm_def sub3_def add3_def
  neg3_def mul3_def colorless_def Let_def create_buffers_def glGenBuffers_def glBufferData_def
  label_colors_def numeral_3_eq_3

lemma floor_quotient_lower:
  assumes "0 < (y::real)"
  shows "y * of_int \<lfloor>x / y\<rfloor> \<le> x"
proof -
  have "of_int \<lfloor>x / y\<rfloor> * y \<le> x"
    by (rule iffD1 [OF pos_le_divide_eq [OF assms]]) (rule of_int_floor_le)
  then show ?thesis by (simp add: mult.commute)
qed

lemma floor_quotient_upper:
  assumes "0 < (y::real)"
  shows "x < y * of_int \<lfloor>x / y\<rfloor> + y"
proof -
  have "x / y < of_int \<lfloor>x / y\<rfloor> + 1" by linarith
  then have "x < (of_int \<lfloor>x / y\<rfloor> + 1) * y"
    by (rule iffD1 [OF pos_divide_less_eq [OF assms]])
  then show ?thesis by (simp add: algebra_simps)
qed

lemma floor_mod_range: "0 < y \<Longrightarrow> 0 \<le> floor_mod x y \<and> floor_mod x y < y"
  using floor_quotient_lower [of y x] floor_quotient_upper [of y x]
  by (simp add: floor_mod_def)

lemma py_mod_floor:
  assumes "0 < y"
  shows "py_mod x y =
           (if x < 0 \<and> floor_mod x y \<noteq> 0 then round_double (floor_mod x y) else floor_mod x y)"
proof (cases "0 \<le> x / y")
  case True
  then have x: "0 \<le> x" using assms by (simp add: zero_le_divide_iff)
  show ?thesis
    using True x floor_quotient_lower [OF assms, of x] assms
    by (simp add: py_mod_def fmod_def trunc_quotient_def Let_def floor_mod_def)
next
  case False
  then have x: "x < 0" using assms by (simp add: zero_le_divide_iff not_le)
  show ?thesis
  proof (cases "of_int \<lfloor>x / y\<rfloor> = x / y")
    case True
    then have c: "\<lceil>x / y\<rceil> = \<lfloor>x / y\<rfloor>"
      by (metis ceiling_of_int)
    have "y * of_int \<lfloor>x / y\<rfloor> = y * (x / y)" by (simp only: True)
    also have "\<dots> = x" using assms by simp
    finally have "y * of_int \<lfloor>x / y\<rfloor> = x" .
    then show ?thesis
      using False c by (simp add: py_mod_def fmod_def trunc_quotient_def Let_def floor_mod_def)
  next
    case nint: False
    then have c: "\<lceil>x / y\<rceil> = \<lfloor>x / y\<rfloor> + 1"
      by (metis ceiling_altdef)
    have m: "fmod x y = floor_mod x y - y"
      using False c by (simp add: fmod_def trunc_quotient_def algebra_simps floor_mod_def)
    have neg: "fmod x y < 0"
      using floor_quotient_upper [OF assms, of x] m by (simp add: floor_mod_def)
    have "y * of_int \<lfloor>x / y\<rfloor> \<noteq> x"
    proof
      assume "y * of_int \<lfloor>x / y\<rfloor> = x"
      from arg_cong [OF this, of "\<lambda>t. t / y"]
      have "y * of_int \<lfloor>x / y\<rfloor> / y = x / y" .
      moreover have "y * of_int \<lfloor>x / y\<rfloor> / y = of_int \<lfloor>x / y\<rfloor>"
        using assms by simp
      ultimately show False using nint by simp
    qed
    then have nz: "floor_mod x y \<noteq> 0" by (simp add: floor_mod_def)
    show ?thesis
      using m neg nz x assms by (simp add: py_mod_def Let_def)
  qed
qed

lemma binade_bounds:
  assumes "0 < x"
  shows "2 powr of_int (binade x) \<le> x" and "x < 2 powr of_int (binade x + 1)"
proof -
  have "\<lfloor>log 2 x\<rfloor> = binade x" using assms by (simp add: binade_def)
  then have "2 powr of_int (binade x) \<le> x \<and> x < 2 powr of_int (binade x + 1)"
    using floor_log_eq_powr_iff [of x 2 "binade x"] assms by simp
  then show "2 powr of_int (binade x) \<le> x" and "x < 2 powr of_int (binade x + 1)"
    by simp_all
qed

lemma ulp_pos: "0 < ulp x"
  by (simp add: ulp_def)

lemma round_half_even_bounds: "\<lfloor>q\<rfloor> \<le> round_half_even q" "round_half_even q \<le> \<lfloor>q\<rfloor> + 1"
  by (simp_all add: round_half_even_def Let_def)

lemma round_half_even_of_int: "round_half_even (of_int k) = k"
  by (simp add: round_half_even_def Let_def)

lemma round_double_nonneg: "0 \<le> x \<Longrightarrow> 0 \<le> round_double x"
proof -
  assume x: "0 \<le> x"
  have "0 \<le> x / ulp x" using x ulp_pos [of x] by simp
  then have "0 \<le> \<lfloor>x / ulp x\<rfloor>" by simp
  then have "0 \<le> round_half_even (x / ulp x)"
    using round_half_even_bounds(1) [of "x / ulp x"] by linarith
  then show ?thesis using ulp_pos [of x] by (simp add: round_double_def)
qed

lemma round_double_le_multiple:
  assumes "x < of_int K * ulp x"
  shows "round_double x \<le> of_int K * ulp x"
proof (cases "x = 0")
  case True
  then show ?thesis using assms by (simp add: round_double_def)
next
  case False
  have "x / ulp x < of_int K"
    using assms ulp_pos [of x] by (simp add: pos_divide_less_eq)
  then have "\<lfloor>x / ulp x\<rfloor> < K" by (simp add: floor_less_iff)
  then have "round_half_even (x / ulp x) \<le> K"
    using round_half_even_bounds(2) [of "x / ulp x"] by linarith
  then have "of_int (round_half_even (x / ulp x)) * ulp x \<le> of_int K * ulp x"
    using ulp_pos [of x] by (simp add: mult_right_mono)
  then show ?thesis using False by (simp add: round_double_def)
qed

lemma binade_8: "256 \<le> x \<Longrightarrow> x < 512 \<Longrightarrow> binade x = 8"
proof -
  assume a: "256 \<le> x" "x < 512"
  have "\<lfloor>log 2 x\<rfloor> = 8"
    using a floor_log_eq_powr_iff [of x 2 8] by simp
  then show ?thesis using a by (simp add: binade_def)
qed

lemma ulp_8: "256 \<le> x \<Longrightarrow> x < 512 \<Longrightarrow> ulp x = 1 / 2 ^ 44"
  by (simp add: ulp_def binade_8 powr_minus_divide)

lemma round_double_8:
  "256 \<le> x \<Longrightarrow> x < 512 \<Longrightarrow> round_double x = of_int (round_half_even (x * 2 ^ 44)) / 2 ^ 44"
  by (simp add: round_double_def ulp_8)

lemma round_double_le_360:
  assumes "0 < x" and "x < 360"
  shows "round_double x \<le> 360"
proof (cases "256 \<le> x")
  case True
  then have u: "ulp x = 1 / 2 ^ 44" using assms(2) by (simp add: ulp_8)
  have "x < of_int (360 * 2 ^ 44) * ulp x" using assms(2) by (simp add: u)
  then have "round_double x \<le> of_int (360 * 2 ^ 44) * ulp x"
    by (rule round_double_le_multiple)
  then show ?thesis by (simp add: u)
next
  case False
  then have "2 powr of_int (binade x) < (2::real) powr of_int 8"
    using binade_bounds(1) [OF assms(1)] by simp
  then have "binade x < 8" by (simp only: powr_less_cancel_iff of_int_less_iff)
  then have le: "binade x + 1 \<le> 8" by simp
  have "2 powr of_int (binade x + 1) = of_int (2 ^ 53) * ulp x"
    by (simp add: ulp_def powr_diff powr_add)
  then have "x < of_int (2 ^ 53) * ulp x"
    using binade_bounds(2) [OF assms(1)] by simp
  then have "round_double x \<le> of_int (2 ^ 53) * ulp x"
    by (rule round_double_le_multiple)
  also have "\<dots> = 2 powr of_int (binade x + 1)"
    by (simp add: ulp_def powr_diff powr_add)
  also have "\<dots> \<le> 2 powr of_int 8"
    using le by (simp only: powr_le_cancel_iff of_int_le_iff)
  finally show ?thesis by simp
qed

lemma py_mod_360_range: "0 \<le> py_mod x 360 \<and> py_mod x 360 \<le> 360"
proof -
  have r: "0 \<le> floor_mod x 360" "floor_mod x 360 < 360"
    using floor_mod_range [of 360 x] by simp_all
  show ?thesis
  proof (cases "x < 0 \<and> floor_mod x 360 \<noteq> 0")
    case True
    then have "0 < floor_mod x 360" using r(1) by simp
    then show ?thesis
      using True r round_double_nonneg [of "floor_mod x 360"]
        round_double_le_360 [of "floor_mod x 360"]
      by (simp add: py_mod_floor)
  next
    case False
    then show ?thesis using r by (auto simp: py_mod_floor)
  qed
qed

lemma py_mod_360_within_turn: "within_turn (py_mod x 360)"
  using py_mod_360_range [of x] by (simp add: within_turn_def)

lemmas round_simps = round_double_8 round_half_even_def Let_def


lemma init_rotation_apply_mutation: "init_rotation (apply_mutation m pc) = init_rotation pc"
  by (cases m)
    (simp_all add: set_rot_x_def set_rot_y_def set_rot_z_def set_rotations_def set_trans_x_def
      set_trans_y_def set_trans_z_def set_translations_def reset_perspective_def Let_def
      split: prod.splits)

lemma init_translation_apply_mutation: "init_translation (apply_mutation m pc) = init_translation pc"
  by (cases m)
    (simp_all add: set_rot_x_def set_rot_y_def set_rot_z_def set_rotations_def set_trans_x_def
      set_trans_y_def set_trans_z_def set_translations_def reset_perspective_def Let_def
      split: prod.splits)

lemma init_rotation_run_mutations: "init_rotation (run_mutations ms pc) = init_rotation pc"
  unfolding run_mutations_def
  by (induction ms arbitrary: pc) (simp_all add: init_rotation_apply_mutation)

lemma init_translation_run_mutations: "init_translation (run_mutations ms pc) = init_translation pc"
  unfolding run_mutations_def
  by (induction ms arbitrary: pc) (simp_all add: init_translation_apply_mutation)

lemma get_rotations_reset: "get_rotations (reset_perspective pc) = init_rotation pc"
  by (simp add: get_rotations_def reset_perspective_def Let_def split: prod.splits)

lemma get_translation_reset: "get_translation (reset_perspective pc) = init_rotation pc"
  by (simp add: get_translation_def reset_perspective_def Let_def split: prod.splits)

lemma apply_mutation_within_turn:
  assumes "within_turn3 (init_rotation pc)" and "within_turn3 (get_rotations pc)"
  shows "within_turn3 (get_rotations (apply_mutation m pc))"
proof (cases m)
  case ResetPerspective
  then show ?thesis using assms(1) by (simp add: get_rotations_reset)
qed (use assms(2) in \<open>simp_all add: get_rotations_def within_turn3_def py_mod_360_within_turn
      set_rot_x_def set_rot_y_def set_rot_z_def set_rotations_def set_trans_x_def
      set_trans_y_def set_trans_z_def set_translations_def\<close>)

lemma run_mutations_within_turn:
  assumes "within_turn3 (init_rotation pc)" and "within_turn3 (get_rotations pc)"
  shows "within_turn3 (get_rotations (run_mutations ms pc))"
  using assms unfolding run_mutations_def
proof (induction ms arbitrary: pc)
  case Nil
  then show ?case by simp
next
  case (Cons m ms)
  have "within_turn3 (init_rotation (apply_mutation m pc))"
    using Cons.prems(1) by (simp add: init_rotation_apply_mutation)
  moreover have "within_turn3 (get_rotations (apply_mutation m pc))"
    using Cons.prems by (rule apply_mutation_within_turn)
  ultimately show ?case using Cons.IH by simp
qed

lemma create_buffers_Inr:
  assumes "create_buffers pc gl = (Inr pc', gl')"
  shows "pc' = pc\<lparr>position_vbo := Some (length gl), color_vbo := Some (length gl + 1),
                     label_vbo := Some (length gl + 2)\<rparr>"
  using assms
  by (simp add: create_buffers_def glGenBuffers_def Let_def numeral_3_eq_3
      split: sum.splits option.splits)

lemma PointCloud_init_Inr:
  assumes "PointCloud_init cfg pts ld cols seg it ir wb gl = (Inr pc, gl')"
  shows "pts \<noteq> []"
    and "\<exists>mins maxs p. np_amin pts = Inr mins \<and> np_amax pts = Inr maxs
           \<and> p = init_attributes cfg pts ld cols seg it ir mins maxs
           \<and> (if wb then pc = p\<lparr>position_vbo := Some (length gl),
                                   color_vbo := Some (length gl + 1),
                                   label_vbo := Some (length gl + 2)\<rparr>
               else pc = p \<and> gl' = gl)"
proof -
  show "pts \<noteq> []"
    using assms by (auto simp: PointCloud_init_def np_amin_def)
  then obtain mins maxs where mm: "np_amin pts = Inr mins" "np_amax pts = Inr maxs"
    by (simp add: np_amin_def np_amax_def)
  let ?p = "init_attributes cfg pts ld cols seg it ir mins maxs"
  have "if wb then create_buffers ?p gl = (Inr pc, gl') else pc = ?p \<and> gl' = gl"
    using assms mm by (auto simp: PointCloud_init_def Let_def)
  then have "if wb then pc = ?p\<lparr>position_vbo := Some (length gl),
                                   color_vbo := Some (length gl + 1),
                                   label_vbo := Some (length gl + 2)\<rparr>
             else pc = ?p \<and> gl' = gl"
    by (auto dest: create_buffers_Inr split: if_splits)
  then show "\<exists>mins maxs p. np_amin pts = Inr mins \<and> np_amax pts = Inr maxs
           \<and> p = init_attributes cfg pts ld cols seg it ir mins maxs
           \<and> (if wb then pc = p\<lparr>position_vbo := Some (length gl),
                                   color_vbo := Some (length gl + 1),
                                   label_vbo := Some (length gl + 2)\<rparr>
               else pc = p \<and> gl' = gl)"
    using mm by blast
qed

lemma init_attributes_pose:
  "init_rotation (init_attributes cfg pts ld cols seg it ir mins maxs)
     = (case ir of Some r \<Rightarrow> r | None \<Rightarrow> (0, 0, 0))"
  "get_rotations (init_attributes cfg pts ld cols seg it ir mins maxs)
     = init_rotation (init_attributes cfg pts ld cols seg it ir mins maxs)"
  "get_translation (init_attributes cfg pts ld cols seg it ir mins maxs)
     = init_translation (init_attributes cfg pts ld cols seg it ir mins maxs)"
  by (simp_all add: init_attributes_def Let_def get_rotations_def get_translation_def)

lemma PointCloud_init_pose:
  assumes "PointCloud_init cfg pts ld cols seg it ir wb gl = (Inr pc, gl')"
  shows "init_rotation pc = (case ir of Some r \<Rightarrow> r | None \<Rightarrow> (0, 0, 0))"
    and "get_rotations pc = init_rotation pc"
    and "get_translation pc = init_translation pc"
proof -
  obtain mins maxs where
    "if wb then pc = (init_attributes cfg pts ld cols seg it ir mins maxs)
                 \<lparr>position_vbo := Some (length gl), color_vbo := Some (length gl + 1),
                   label_vbo := Some (length gl + 2)\<rparr>
     else pc = init_attributes cfg pts ld cols seg it ir mins maxs \<and> gl' = gl"
    using PointCloud_init_Inr(2) [OF assms] by blast
  then have f: "init_rotation pc = init_rotation (init_attributes cfg pts ld cols seg it ir mins maxs)"
    "get_rotations pc = get_rotations (init_attributes cfg pts ld cols seg it ir mins maxs)"
    "get_translation pc = get_translation (init_attributes cfg pts ld cols seg it ir mins maxs)"
    "init_translation pc = init_translation (init_attributes cfg pts ld cols seg it ir mins maxs)"
    by (auto simp: get_rotations_def get_translation_def split: if_splits)
  show "init_rotation pc = (case ir of Some r \<Rightarrow> r | None \<Rightarrow> (0, 0, 0))"
    using f(1) by (simp only: init_attributes_pose)
  show "get_rotations pc = init_rotation pc"
    using f(1,2) by (simp only: init_attributes_pose)
  show "get_translation pc = init_translation pc"
    using f(3,4) by (simp only: init_attributes_pose)
qed

subsection \<open>Reset of the pose\<close>

text \<open>
  Claim C1: after any setter calls, \<open>reset_perspective\<close> restores the translation to
  \<open>init_translation\<close> and the rotation to \<open>init_rotation\<close>. The code assigns
  \<open>init_rotation\<close> to both. On the cloud of the single point \<open>(0, 0, 5)\<close>, loaded
  without a perspective, the recorded translation is \<open>(0, 0, -5)\<close>; after
  \<open>set_trans_x(1)\<close> and the reset the translation is \<open>(0, 0, 0)\<close>, the recorded
  rotation, while the rotation is restored as claimed.
\<close>

theorem reset_perspective_translation_from_rotation:
  "PointCloud_init example_config [(0, 0, 5)] [] None None None None False [] = (Inr example_cloud, [])
   \<and> init_translation example_cloud = (0, 0, - 5)
   \<and> get_translation (reset_perspective (run_mutations [SetTransX 1] example_cloud)) = (0, 0, 0)
   \<and> get_translation (reset_perspective (run_mutations [SetTransX 1] example_cloud))
       \<noteq> init_translation (run_mutations [SetTransX 1] example_cloud)
   \<and> get_rotations (reset_perspective (run_mutations [SetTransX 1] example_cloud))
       = init_rotation (run_mutations [SetTransX 1] example_cloud)"
  by (simp add: init_simps example_config_def example_cloud_def get_translation_reset
      get_rotations_reset init_rotation_run_mutations init_translation_run_mutations)

subsection \<open>Rotation setters\<close>

text \<open>
  Two ways a stored rotation leaves \<open>[0, 360)\<close>. The sum inside \<open>%\<close> is rounded: for
  the angle \<open>-2 ^ -70\<close> the exact floor-mod is below 360, but \<open>set_rot_x\<close> stores
  exactly 360. And the constructor stores the rotation of the perspective as it comes: a
  cloud loaded with the rotation \<open>(400, 0, 0)\<close> keeps \<open>rot_x = 400\<close> after
  \<open>set_rot_y(10)\<close>.
\<close>

theorem rotation_out_of_range_counterexample:
  "rot_x (set_rot_x (- (1 / 2 ^ 70)) example_cloud) = 360
   \<and> floor_mod (- (1 / 2 ^ 70)) 360 < 360
   \<and> \<not> normalized 360
   \<and> map_sum id (get_rotations \<circ> run_mutations [SetRotY 10])
        (fst (PointCloud_init example_config [(0, 0, 5)] [] None None
                (Some (0, 0, - 5)) (Some (400, 0, 0)) False []))
      = Inr (400, 10, 0)
   \<and> \<not> normalized3 (400, 10, 0)"
  by (simp add: init_simps example_config_def run_mutations_def set_rot_x_def set_rot_y_def
      get_rotations_def py_mod_floor floor_mod_def round_simps normalized3_def normalized_def)

text \<open>
  Claim C4, amended: every rotation setter stores its input reduced by floor-mod 360 as
  the float operation \<open>%\<close> returns it, which is the exact floor-mod for an angle that
  is not negative and the floor-mod rounded to the nearest double for a negative one
  (\<open>-30\<close> is stored as \<open>330\<close>, \<open>725\<close> as \<open>5\<close>); the stored value lies in
  \<open>[0, 360]\<close>, the bound 360 included; and when the rotation recorded at load time lies
  in \<open>[0, 360]\<close> in each component, as the default \<open>(0, 0, 0)\<close> does, every stored
  rotation component lies in \<open>[0, 360]\<close> after any sequence of setter and reset calls.
\<close>

theorem rotation_setters_normalize:
  assumes "PointCloud_init cfg pts ld cols seg it ir wb gl = (Inr pc, gl')"
    and "within_turn3 (case ir of Some r \<Rightarrow> r | None \<Rightarrow> (0, 0, 0))"
  shows "rot_x (set_rot_x a q) = stored_rotation a
       \<and> rot_y (set_rot_y a q) = stored_rotation a
       \<and> rot_z (set_rot_z a q) = stored_rotation a
       \<and> get_rotations (set_rotations x y z q)
           = (stored_rotation x, stored_rotation y, stored_rotation z)
       \<and> (0 \<le> a \<longrightarrow> stored_rotation a = a - 360 * of_int \<lfloor>a / 360\<rfloor>)
       \<and> (a < 0 \<longrightarrow> stored_rotation a = round_double (a - 360 * of_int \<lfloor>a / 360\<rfloor>))
       \<and> within_turn (stored_rotation a)
       \<and> within_turn3 (get_rotations (set_rotations x y z q))
       \<and> rot_x (set_rot_x (- 30) q) = 330 \<and> rot_x (set_rot_x 725 q) = 5
       \<and> within_turn3 (get_rotations (run_mutations ms pc))"
proof -
  have st: "py_mod b 360 = stored_rotation b" for b
    by (simp add: py_mod_floor stored_rotation_def Let_def)
  have setters: "rot_x (set_rot_x a q) = stored_rotation a"
    "rot_y (set_rot_y a q) = stored_rotation a"
    "rot_z (set_rot_z a q) = stored_rotation a"
    "get_rotations (set_rotations x y z q)
       = (stored_rotation x, stored_rotation y, stored_rotation z)"
    by (simp_all add: set_rot_x_def set_rot_y_def set_rot_z_def set_rotations_def
        get_rotations_def st)
  have pos: "stored_rotation a = a - 360 * of_int \<lfloor>a / 360\<rfloor>" if "0 \<le> a"
    using that by (simp add: stored_rotation_def Let_def floor_mod_def)
  have neg: "stored_rotation a = round_double (a - 360 * of_int \<lfloor>a / 360\<rfloor>)" if "a < 0"
    using that by (simp add: stored_rotation_def Let_def floor_mod_def round_double_def)
  have range: "within_turn (stored_rotation b)" for b
    using py_mod_360_within_turn [of b] by (simp only: st)
  have range3: "within_turn3 (get_rotations (set_rotations x y z q))"
    unfolding setters(4) by (simp add: within_turn3_def range)
  have examples: "rot_x (set_rot_x (- 30) q) = 330" "rot_x (set_rot_x 725 q) = 5"
    by (simp_all add: set_rot_x_def py_mod_floor floor_mod_def round_simps)
  have "within_turn3 (init_rotation pc)"
    using assms(2) PointCloud_init_pose(1) [OF assms(1)] by simp
  moreover have "within_turn3 (get_rotations pc)"
    using calculation PointCloud_init_pose(2) [OF assms(1)] by simp
  ultimately have "within_turn3 (get_rotations (run_mutations ms pc))"
    by (rule run_mutations_within_turn)
  then show ?thesis using setters pos neg range range3 examples by simp
qed

theorem rotation_setters_normalize_witness:
  "PointCloud_init example_config [(0, 0, 5)] [] None None None None False [] = (Inr example_cloud, [])
   \<and> within_turn3 (case None of Some r \<Rightarrow> r | None \<Rightarrow> (0, 0, 0))
   \<and> get_rotations (set_rotations 725 (- 30) 360 example_cloud) = (5, 330, 0)
   \<and> rot_x (set_rot_x (- (1 / 2 ^ 70)) example_cloud) = 360
   \<and> within_turn3 (get_rotations
        (run_mutations [SetRotX (- 30), SetTransX 4, ResetPerspective, SetRotations 725 (- 30) 360,
                        SetRotZ (- (1 / 2 ^ 70))]
           example_cloud))"
proof -
  have h1: "PointCloud_init example_config [(0, 0, 5)] [] None None None None False []
            = (Inr example_cloud, [])"
    by (simp add: init_simps example_config_def example_cloud_def)
  have h2: "within_turn3 (case None of Some r \<Rightarrow> r | None \<Rightarrow> (0, 0, 0))"
    by (simp add: within_turn3_def within_turn_def)
  have v: "stored_rotation 725 = 5" "stored_rotation (- 30) = 330" "stored_rotation 360 = 0"
    by (simp_all add: stored_rotation_def floor_mod_def round_simps)
  have t: "rot_x (set_rot_x (- (1 / 2 ^ 70)) example_cloud) = 360"
    by (simp add: set_rot_x_def py_mod_floor floor_mod_def round_simps)
  note inst = rotation_setters_normalize [OF h1 h2, of "- (1 / 2 ^ 70)" example_cloud 725 "- 30" 360
        "[SetRotX (- 30), SetTransX 4, ResetPerspective, SetRotations 725 (- 30) 360,
          SetRotZ (- (1 / 2 ^ 70))]"]
  show ?thesis
    using h1 h2 t inst by (simp add: v)
qed

subsection \<open>What the constructor stores\<close>

lemma init_total_without_buffers:
  assumes "pts \<noteq> []"
  shows "\<exists>pc. PointCloud_init cfg pts ld cols seg it ir False gl = (Inr pc, gl)"
  using assms by (simp add: PointCloud_init_def np_amin_def np_amax_def Let_def)

lemma init_empty: "PointCloud_init cfg [] ld cols seg it ir wb gl = (Inl ValueError, gl)"
  by (simp add: PointCloud_init_def np_amin_def)

lemma init_attributes_fields:
  "points (init_attributes cfg pts ld cols seg it ir mins maxs) = pts"
  "center (init_attributes cfg pts ld cols seg it ir mins maxs) = compute_center pts"
  "pcd_mins (init_attributes cfg pts ld cols seg it ir mins maxs) = mins"
  "pcd_maxs (init_attributes cfg pts ld cols seg it ir mins maxs) = maxs"
  "label_definition (init_attributes cfg pts ld cols seg it ir mins maxs) = ld"
  "labels (init_attributes cfg pts ld cols seg it ir mins maxs) = (if SEGMENTATION cfg then seg else None)"
  by (simp_all add: init_attributes_def Let_def)


lemma compute_center_mean:
  "compute_center pts = (arithmetic_mean (map fst pts), arithmetic_mean (map (fst \<circ> snd) pts),
       arithmetic_mean (map (snd \<circ> snd) pts))"
proof -
  have a: "column 0 pts = map fst pts" "column 1 pts = map (fst \<circ> snd) pts"
    "column 2 pts = map (snd \<circ> snd) pts"
    by (simp_all add: column_def axis_def split: prod.splits)
  have s: "sum_list xs / real (length pts) = arithmetic_mean xs"
    if "length xs = length pts" for xs :: "real list"
    using that by (simp add: sum_list_sum_nth atLeast0LessThan arithmetic_mean_def)
  show ?thesis
    unfolding compute_center_def a by (simp add: s)
qed

lemma PointCloud_init_fields:
  assumes "PointCloud_init cfg pts ld cols seg it ir wb gl = (Inr pc, gl')"
  obtains mins maxs where "np_amin pts = Inr mins" "np_amax pts = Inr maxs"
    "points pc = pts" "center pc = compute_center pts" "pcd_mins pc = mins" "pcd_maxs pc = maxs"
    "label_definition pc = ld" "labels pc = (if SEGMENTATION cfg then seg else None)"
    "colors pc = colors (init_attributes cfg pts ld cols seg it ir mins maxs)"
proof -
  obtain mins maxs where mm: "np_amin pts = Inr mins" "np_amax pts = Inr maxs"
    and pc: "if wb then pc = (init_attributes cfg pts ld cols seg it ir mins maxs)
                 \<lparr>position_vbo := Some (length gl), color_vbo := Some (length gl + 1),
                   label_vbo := Some (length gl + 2)\<rparr>
     else pc = init_attributes cfg pts ld cols seg it ir mins maxs \<and> gl' = gl"
    using PointCloud_init_Inr(2) [OF assms] by blast
  have "points pc = pts" "center pc = compute_center pts" "pcd_mins pc = mins" "pcd_maxs pc = maxs"
    "label_definition pc = ld" "labels pc = (if SEGMENTATION cfg then seg else None)"
    "colors pc = colors (init_attributes cfg pts ld cols seg it ir mins maxs)"
    using pc by (auto simp: init_attributes_fields split: if_splits)
  then show thesis using mm that by blast
qed

subsection \<open>The centre\<close>

text \<open>
  Claim C8: for a non-empty point set the constructor returns (without the buffer step
  nothing else can fail), and the centre of every constructed cloud is the arithmetic mean
  of its points on each axis; the four points \<open>(0,0,0)\<close>, \<open>(2,0,0)\<close>, \<open>(0,2,0)\<close>,
  \<open>(0,0,2)\<close> have the centre \<open>(0.5, 0.5, 0.5)\<close>. For no points the constructor
  raises (the ValueError of \<open>np.amin\<close>) and no centre is stored.
\<close>

theorem center_is_mean:
  "(pts \<noteq> [] \<longrightarrow> (\<exists>pc. PointCloud_init cfg pts ld cols seg it ir False gl = (Inr pc, gl)))
   \<and> (PointCloud_init cfg pts ld cols seg it ir wb gl = (Inr pc, gl') \<longrightarrow>
        pts \<noteq> [] \<and>
        center pc = (arithmetic_mean (map fst pts), arithmetic_mean (map (fst \<circ> snd) pts),
                     arithmetic_mean (map (snd \<circ> snd) pts)))
   \<and> compute_center [(0, 0, 0), (2, 0, 0), (0, 2, 0), (0, 0, 2)] = (1 / 2, 1 / 2, 1 / 2)
   \<and> PointCloud_init cfg [] ld cols seg it ir wb gl = (Inl ValueError, gl)"
proof -
  have "center pc = compute_center pts \<and> pts \<noteq> []"
    if "PointCloud_init cfg pts ld cols seg it ir wb gl = (Inr pc, gl')"
    using PointCloud_init_fields [OF that] PointCloud_init_Inr(1) [OF that] by metis
  moreover have "compute_center [(0, 0, 0), (2, 0, 0), (0, 2, 0), (0, 0, 2)] = (1 / 2, 1 / 2, 1 / 2)"
    by (simp add: compute_center_def column_def axis_def)
  ultimately show ?thesis
    using init_total_without_buffers [of pts cfg ld cols seg it ir gl] 
      init_empty [of cfg ld cols seg it ir wb gl] compute_center_mean [of pts]
    by simp
qed

theorem center_is_mean_witness:
  "[(0, 0, 0), (2, 0, 0), (0, 2, 0), (0, 0, 2)] \<noteq> ([] :: point3 list)
   \<and> (\<exists>pc. PointCloud_init example_config [(0, 0, 0), (2, 0, 0), (0, 2, 0), (0, 0, 2)] [] None None
              None None False [] = (Inr pc, [])
        \<and> center pc = (1 / 2, 1 / 2, 1 / 2))"
proof -
  let ?pts = "[(0, 0, 0), (2, 0, 0), (0, 2, 0), (0, 0, 2)] :: point3 list"
  have ne: "?pts \<noteq> []" by simp
  have m: "arithmetic_mean (map fst ?pts) = 1 / 2" "arithmetic_mean (map (fst \<circ> snd) ?pts) = 1 / 2"
    "arithmetic_mean (map (snd \<circ> snd) ?pts) = 1 / 2"
    by (simp_all add: arithmetic_mean_def lessThan_Suc numeral_eq_Suc)
  note inst = center_is_mean [of ?pts example_config "[]" None None None None "[]" False _ "[]"]
  from inst [THEN conjunct1, THEN mp, OF ne]
  obtain pc where pc: "PointCloud_init example_config ?pts [] None None None None False [] = (Inr pc, [])"
    by blast
  from inst [THEN conjunct2, THEN conjunct1, THEN mp, OF pc]
  have "center pc = (1 / 2, 1 / 2, 1 / 2)"
    by (simp only: m)
  with pc ne show ?thesis by blast
qed

subsection \<open>The initial translation\<close>

text \<open>
  The translation is the negated centre moved back by the zoom, so its third component
  carries the height of the centre. The cloud of the single point \<open>(0, 0, 100)\<close> has
  centre and extents \<open>(0, 0, 100)\<close>, the zoom 0 and the initial translation
  \<open>(0, 0, -100)\<close>, whose third component exceeds \<open>far_plane * 0.9 = 9\<close> in magnitude.
\<close>

theorem init_translation_exceeds_far_plane_counterexample:
  "map_sum id init_translation
     (fst (PointCloud_init example_config [(0, 0, 100)] [] None None None None False []))
     = Inr (0, 0, - 100)
   \<and> calculate_init_translation example_config (0, 0, 100) (0, 0, 100) (0, 0, 100) = (0, 0, - 100)
   \<and> \<not> \<bar>axis 2 (0, 0, - 100)\<bar> \<le> far_plane example_config * 0.9"
  by (simp add: init_simps example_config_def)

text \<open>
  Claim C5, amended: for \<open>far_plane > 0\<close> the initial translation is
  \<open>-(center + (0, 0, zoom))\<close> with \<open>zoom = min(euclidean_norm(maxs - mins), far_plane * 0.9)\<close>;
  the zoom, which is the distance of the third component from the negated height of the
  centre, never exceeds \<open>far_plane * 0.9\<close>, even when the diagonal does, and so the
  magnitude of the third component is at most \<open>|center_z| + far_plane * 0.9\<close>.
\<close>

theorem calculate_init_translation_zoom:
  assumes "0 < far_plane cfg"
  shows "calculate_init_translation cfg (cx, cy, cz) (a0, a1, a2) (b0, b1, b2) =
           (let diag = sqrt ((b0 - a0)\<^sup>2 + (b1 - a1)\<^sup>2 + (b2 - a2)\<^sup>2);
                zoom = min diag (far_plane cfg * 0.9)
            in (- cx, - cy, - (cz + zoom)))
       \<and> \<bar>axis 2 (calculate_init_translation cfg (cx, cy, cz) (a0, a1, a2) (b0, b1, b2)) + cz\<bar>
           \<le> far_plane cfg * 0.9
       \<and> \<bar>axis 2 (calculate_init_translation cfg (cx, cy, cz) (a0, a1, a2) (b0, b1, b2))\<bar>
           \<le> \<bar>cz\<bar> + far_plane cfg * 0.9"
proof -
  define diag where "diag = sqrt ((b0 - a0)\<^sup>2 + (b1 - a1)\<^sup>2 + (b2 - a2)\<^sup>2)"
  define zoom where "zoom = min diag (far_plane cfg * 0.9)"
  have d: "0 \<le> diag" by (simp add: diag_def)
  have z: "0 \<le> zoom" "zoom \<le> far_plane cfg * 0.9"
    using d assms by (simp_all add: zoom_def)
  have eq: "calculate_init_translation cfg (cx, cy, cz) (a0, a1, a2) (b0, b1, b2)
          = (- cx, - cy, - (cz + zoom))"
    by (simp add: calculate_init_translation_def Let_def py_min_def linalg_norm_def sub3_def
        add3_def neg3_def zoom_def diag_def min_def power2_eq_square)
  have ax: "axis 2 (- cx, - cy, - (cz + zoom)) = - (cz + zoom)"
    by (simp add: axis_def)
  have 1: "calculate_init_translation cfg (cx, cy, cz) (a0, a1, a2) (b0, b1, b2) =
           (let diag = sqrt ((b0 - a0)\<^sup>2 + (b1 - a1)\<^sup>2 + (b2 - a2)\<^sup>2);
                zoom = min diag (far_plane cfg * 0.9)
            in (- cx, - cy, - (cz + zoom)))"
    unfolding eq by (simp add: Let_def zoom_def diag_def)
  have 2: "\<bar>axis 2 (calculate_init_translation cfg (cx, cy, cz) (a0, a1, a2) (b0, b1, b2)) + cz\<bar>
           \<le> far_plane cfg * 0.9"
    unfolding eq ax using z by simp
  have 3: "\<bar>axis 2 (calculate_init_translation cfg (cx, cy, cz) (a0, a1, a2) (b0, b1, b2))\<bar>
           \<le> \<bar>cz\<bar> + far_plane cfg * 0.9"
    unfolding eq ax using z by simp
  from 1 2 3 show ?thesis by blast
qed

theorem calculate_init_translation_zoom_witness:
  "0 < far_plane example_config
   \<and> calculate_init_translation example_config (1, 2, 3) (0, 0, 0) (1000, 0, 0) = (- 1, - 2, - 12)
   \<and> \<bar>axis 2 (calculate_init_translation example_config (1, 2, 3) (0, 0, 0) (1000, 0, 0)) + 3\<bar>
       \<le> far_plane example_config * 0.9"
proof -
  have h: "0 < far_plane example_config" by (simp add: example_config_def)
  have fp: "far_plane example_config = 10" by (simp add: example_config_def)
  have "sqrt ((1000::real)\<^sup>2) = 1000" by (rule real_sqrt_unique) simp_all
  then have s: "sqrt 1000000 = (1000::real)" by simp
  note inst = calculate_init_translation_zoom [OF h, of 1 2 3 0 0 0 1000 0 0]
  have "calculate_init_translation example_config (1, 2, 3) (0, 0, 0) (1000, 0, 0) = (- 1, - 2, - 12)"
    using inst [THEN conjunct1] by (simp add: fp s Let_def)
  then show ?thesis
    using h inst [THEN conjunct2, THEN conjunct1] by simp
qed

subsection \<open>The number of colours\<close>

text \<open>
  Claim C9: \<open>get_no_of_colors\<close> uses the colours array as a condition. For an array with
  at least one point (so for every array with more than one) it raises instead of
  returning the count; it returns 0 when the colours are absent, and whenever it returns,
  it returns 0 and the colours are absent (\<open>None\<close>, or an array without elements, which
  the constructor treats as absent).
\<close>

theorem get_no_of_colors_raises:
  "(colors pc = Some cs \<and> cs \<noteq> [] \<longrightarrow> get_no_of_colors pc = Inl ValueError)
   \<and> (colors pc = None \<longrightarrow> get_no_of_colors pc = Inr 0)
   \<and> (get_no_of_colors pc = Inr n \<longrightarrow> n = 0 \<and> (colors pc = None \<or> colors pc = Some []))"
  by (auto simp: get_no_of_colors_def array_truth_def split: option.splits if_splits)

theorem get_no_of_colors_raises_witness:
  "colors (example_cloud\<lparr>colors := Some [(1, 0, 0), (0, 1, 0)]\<rparr>) = Some [(1, 0, 0), (0, 1, 0)]
   \<and> [(1, 0, 0), (0, 1, 0)] \<noteq> ([] :: point3 list)
   \<and> get_no_of_colors (example_cloud\<lparr>colors := Some [(1, 0, 0), (0, 1, 0)]\<rparr>) = Inl ValueError
   \<and> colors (example_cloud\<lparr>colors := None\<rparr>) = None
   \<and> get_no_of_colors (example_cloud\<lparr>colors := None\<rparr>) = Inr 0"
  using get_no_of_colors_raises [of "example_cloud\<lparr>colors := Some [(1, 0, 0), (0, 1, 0)]\<rparr>"
      "[(1, 0, 0), (0, 1, 0)]" 0]
    get_no_of_colors_raises [of "example_cloud\<lparr>colors := None\<rparr>" "[]" 0]
  by simp

subsection \<open>A constructed cloud has colours\<close>



subsection \<open>The label colours\<close>

lemma np_index_eye:
  "np_index (np_eye n) l =
     (if index_in_range n l then Inr (one_hot n (wrap_index n l)) else Inl IndexError)"
  by (auto simp: np_index_def np_eye_def index_in_range_def wrap_index_def Let_def)

lemma fancy_index_eye:
  "fancy_index (np_eye n) ls =
     (if \<forall>l\<in>set ls. index_in_range n l
      then Inr (map (\<lambda>l. one_hot n (wrap_index n l)) ls) else Inl IndexError)"
  by (induction ls) (simp_all add: np_index_eye)

lemma sum_list_one_hot:
  assumes "k < length xs"
  shows "sum_list (map2 (*) (one_hot (length xs) k) xs) = xs ! k"
proof -
  have "map2 (*) (one_hot (length xs) k) xs
        = map (\<lambda>j. (if k = j then 1 else 0) * xs ! j) [0..<length xs]"
    by (rule nth_equalityI) (simp_all add: one_hot_def)
  then have "sum_list (map2 (*) (one_hot (length xs) k) xs)
        = (\<Sum>j = 0..<length xs. (if k = j then 1 else 0) * xs ! j)"
    by (simp add: interv_sum_list_conv_sum_set_nat)
  also have "\<dots> = (\<Sum>j \<in> {0..<length xs}. if k = j then xs ! j else 0)"
    by (rule sum.cong) simp_all
  also have "\<dots> = xs ! k"
    using assms by simp
  finally show ?thesis .
qed

lemma dot_row_one_hot:
  assumes "k < length m"
  shows "dot_row (one_hot (length m) k) m = m ! k"
proof -
  have "sum_list (map2 (*) (one_hot (length m) k) (column i m)) = axis i (m ! k)" for i
    using sum_list_one_hot [of k "column i m"] assms by (simp add: column_def)
  then show ?thesis
    by (cases "m ! k") (simp add: dot_row_def axis_def)
qed

lemma wrap_index_less: "index_in_range n l \<Longrightarrow> wrap_index n l < n"
  by (auto simp: index_in_range_def wrap_index_def)

lemma np_dot_one_hot:
  assumes "\<forall>l\<in>set ls. index_in_range (length m) l"
  shows "np_dot (length m) (map (\<lambda>l. one_hot (length m) (wrap_index (length m) l)) ls) m
         = Inr (map (\<lambda>l. m ! wrap_index (length m) l) ls)"
  using assms by (simp add: np_dot_def dot_row_one_hot wrap_index_less)

lemma np_add_blend:
  assumes "length cs = length base"
  shows "np_add (map (\<lambda>c. scale3 c r) cs) (map (\<lambda>c. scale3 c (1 - r)) base)
         = Inr (map2 (blend r) cs base)"
  using assms by (auto simp: np_add_def blend_def zip_map_map)

lemma label_colors_in_range:
  assumes "labels pc = Some ls" and "colors pc = Some base" and "label_color_map pc = Some m"
    and "mix_ratio pc = Some r" and "length m = length (label_definition pc)"
    and "length base = length ls" and "\<forall>l\<in>set ls. index_in_range (length m) l"
  shows "label_colors pc = Inr (Some (map2 (blend r) (map (\<lambda>l. m ! wrap_index (length m) l) ls) base))"
proof -
  have 1: "fancy_index (np_eye (length (label_definition pc))) ls
        = Inr (map (\<lambda>l. one_hot (length m) (wrap_index (length m) l)) ls)"
    using assms(5,7) by (simp add: fancy_index_eye)
  have 2: "np_dot (length (label_definition pc))
             (map (\<lambda>l. one_hot (length m) (wrap_index (length m) l)) ls) m
        = Inr (map (\<lambda>l. m ! wrap_index (length m) l) ls)"
    using np_dot_one_hot [OF assms(7)] assms(5) by simp
  have 3: "np_add (map (\<lambda>c. scale3 c r) (map (\<lambda>l. m ! wrap_index (length m) l) ls))
             (map (\<lambda>c. scale3 c (1 - r)) base)
        = Inr (map2 (blend r) (map (\<lambda>l. m ! wrap_index (length m) l) ls) base)"
    using assms(6) by (intro np_add_blend) simp
  show ?thesis
    unfolding label_colors_def by (simp only: assms(1-4) 1 2 3 option.case sum.case)
qed

lemma label_colors_IndexError:
  assumes "labels pc = Some ls"
  shows "label_colors pc = Inl IndexError
         \<longleftrightarrow> (\<exists>l\<in>set ls. \<not> index_in_range (length (label_definition pc)) l)"
  using assms
  by (auto simp: label_colors_def fancy_index_eye np_dot_def np_add_def
      split: option.splits sum.splits if_splits)

lemma blend_0: "blend 0 a b = b"
  by (cases a; cases b) (simp add: blend_def add3_def scale3_def)

lemma blend_1: "blend 1 a b = a"
  by (cases a; cases b) (simp add: blend_def add3_def scale3_def)

lemmas label_simps = label_colors_def np_eye_def one_hot_def np_index_def np_dot_def dot_row_def
  np_add_def scale3_def add3_def column_def axis_def Let_def

lemma blend_components:
  "blend r (a0, a1, a2) (b0, b1, b2)
     = (r * a0 + (1 - r) * b0, r * a1 + (1 - r) * b1, r * a2 + (1 - r) * b2)"
  by (simp add: blend_def add3_def scale3_def mult.commute)

text \<open>
  Claim C3: with labels present and every label in the range of the label colour map
  (the map having one row per class and the base colours one row per label), the blend
  is defined and its row \<open>i\<close> is
  \<open>mix_ratio * label_color_map[labels[i]] + (1 - mix_ratio) * colors[i]\<close>, for every
  mix ratio; the ratio 0 gives the base colours and the ratio 1 the label colours of the
  points. Without labels the blend is the colours array itself.
\<close>

theorem label_colors_blend:
  "(labels pc = None \<longrightarrow> label_colors pc = Inr (colors pc))
   \<and> (labels pc = Some ls \<and> colors pc = Some base \<and> label_color_map pc = Some m
        \<and> mix_ratio pc = Some r \<and> length m = length (label_definition pc)
        \<and> length base = length ls \<and> (\<forall>l\<in>set ls. 0 \<le> l \<and> l < int (length m)) \<longrightarrow>
       (\<exists>out. label_colors pc = Inr (Some out) \<and> length out = length ls
          \<and> (\<forall>i<length ls.
                out ! i = (case (m ! nat (ls ! i), base ! i) of
                             ((lr, lg, lb), (br, bg, bb)) \<Rightarrow>
                               (r * lr + (1 - r) * br, r * lg + (1 - r) * bg,
                                r * lb + (1 - r) * bb)))
          \<and> (r = 0 \<longrightarrow> out = base)
          \<and> (r = 1 \<longrightarrow> out = map (\<lambda>l. m ! nat l) ls)))"
proof (intro conjI impI)
  assume "labels pc = None"
  then show "label_colors pc = Inr (colors pc)"
    by (simp add: label_colors_def)
next
  assume a: "labels pc = Some ls \<and> colors pc = Some base \<and> label_color_map pc = Some m
        \<and> mix_ratio pc = Some r \<and> length m = length (label_definition pc)
        \<and> length base = length ls \<and> (\<forall>l\<in>set ls. 0 \<le> l \<and> l < int (length m))"
  let ?sel = "map (\<lambda>l. m ! wrap_index (length m) l) ls"
  let ?out = "map2 (blend r) ?sel base"
  have rng: "\<forall>l\<in>set ls. index_in_range (length m) l"
    using a by (auto simp: index_in_range_def)
  have sel: "?sel = map (\<lambda>l. m ! nat l) ls"
    using a by (auto simp: wrap_index_def)
  have lc: "label_colors pc = Inr (Some ?out)"
    using a rng by (intro label_colors_in_range) simp_all
  have len: "length ?out = length ls" using a by simp
  have nth: "?out ! i = (case (m ! nat (ls ! i), base ! i) of
                             ((lr, lg, lb), (br, bg, bb)) \<Rightarrow>
                               (r * lr + (1 - r) * br, r * lg + (1 - r) * bg,
                                r * lb + (1 - r) * bb))" if "i < length ls" for i
  proof -
    have "?out ! i = blend r (m ! nat (ls ! i)) (base ! i)"
      unfolding sel using that a by simp
    then show ?thesis
      by (cases "m ! nat (ls ! i)"; cases "base ! i") (simp add: blend_components)
  qed
  have zero: "?out = base" if "r = 0"
    using a that by (intro nth_equalityI) (simp_all add: blend_0)
  have one: "?out = map (\<lambda>l. m ! nat l) ls" if "r = 1"
    unfolding sel using a that by (intro nth_equalityI) (simp_all add: blend_1)
  show "\<exists>out. label_colors pc = Inr (Some out) \<and> length out = length ls
          \<and> (\<forall>i<length ls.
                out ! i = (case (m ! nat (ls ! i), base ! i) of
                             ((lr, lg, lb), (br, bg, bb)) \<Rightarrow>
                               (r * lr + (1 - r) * br, r * lg + (1 - r) * bg,
                                r * lb + (1 - r) * bb)))
          \<and> (r = 0 \<longrightarrow> out = base)
          \<and> (r = 1 \<longrightarrow> out = map (\<lambda>l. m ! nat l) ls)"
    using lc len nth zero one by blast
qed

theorem label_colors_blend_witness:
  "labels (labelled_cloud\<lparr>labels := Some [1]\<rparr>) = Some [1]
   \<and> colors (labelled_cloud\<lparr>labels := Some [1]\<rparr>) = Some [(1 / 2, 1 / 2, 1 / 2)]
   \<and> label_color_map (labelled_cloud\<lparr>labels := Some [1]\<rparr>) = Some [(1, 0, 0), (1, 1 / 3, 0)]
   \<and> mix_ratio (labelled_cloud\<lparr>labels := Some [1]\<rparr>) = Some (3 / 10)
   \<and> (\<exists>out. label_colors (labelled_cloud\<lparr>labels := Some [1]\<rparr>) = Inr (Some out)
          \<and> length out = 1 \<and> out ! 0 = (13 / 20, 9 / 20, 7 / 20))
   \<and> label_colors (labelled_cloud\<lparr>labels := None\<rparr>) = Inr (Some [(1 / 2, 1 / 2, 1 / 2)])"
proof -
  let ?pc = "labelled_cloud\<lparr>labels := Some [1]\<rparr>"
  have f: "labels ?pc = Some [1]" "colors ?pc = Some [(1 / 2, 1 / 2, 1 / 2)]"
    "label_color_map ?pc = Some [(1, 0, 0), (1, 1 / 3, 0)]" "mix_ratio ?pc = Some (3 / 10)"
    "length [(1, 0, 0), (1, 1 / 3, 0) :: point3] = length (label_definition ?pc)"
    "length [(1 / 2, 1 / 2, 1 / 2) :: point3] = length [1 :: int]"
    "\<forall>l\<in>set [1 :: int]. 0 \<le> l \<and> l < int (length [(1, 0, 0), (1, 1 / 3, 0) :: point3])"
    by (simp_all add: labelled_cloud_def)
  note inst = label_colors_blend [of ?pc "[1]" "[(1 / 2, 1 / 2, 1 / 2)]"
      "[(1, 0, 0), (1, 1 / 3, 0)]" "3 / 10"]
  from inst [THEN conjunct2, THEN mp] f
  obtain out where o: "label_colors ?pc = Inr (Some out)" "length out = length [1 :: int]"
    "\<forall>i<length [1 :: int]. out ! i =
        (case ([(1, 0, 0), (1, 1 / 3, 0)] ! nat ([1] ! i), [(1 / 2, 1 / 2, 1 / 2)] ! i) of
           ((lr, lg, lb), (br, bg, bb)) \<Rightarrow>
             (3 / 10 * lr + (1 - 3 / 10) * br, 3 / 10 * lg + (1 - 3 / 10) * bg,
              3 / 10 * lb + (1 - 3 / 10) * bb))"
    by blast
  from o(3) have "out ! 0 = (13 / 20, 9 / 20, 7 / 20)" by simp
  moreover have "label_colors (labelled_cloud\<lparr>labels := None\<rparr>) = Inr (Some [(1 / 2, 1 / 2, 1 / 2)])"
    using label_colors_blend [of "labelled_cloud\<lparr>labels := None\<rparr>", THEN conjunct1]
    by (simp add: labelled_cloud_def)
  ultimately show ?thesis using f(1-4) o(1,2) by auto
qed

text \<open>
  A label below zero is not always refused: numpy counts it from the end. With two
  classes the label \<open>-1\<close> is blended with the colour of the last class and no error is
  raised, although the palette has no entry \<open>-1\<close>.
\<close>

theorem negative_label_blend_counterexample:
  "PointCloud_init segmentation_config [(0, 0, 5)] [(''unassigned'', 0), (''car'', 1)] None
       (Some [- 1]) None None False [] = (Inr labelled_cloud, [])
   \<and> labels labelled_cloud = Some [- 1]
   \<and> \<not> (0 \<le> (- 1 :: int) \<and> (- 1 :: int) < int (length (label_definition labelled_cloud)))
   \<and> label_colors labelled_cloud = Inr (Some [(13 / 20, 9 / 20, 7 / 20)])"
  by (simp add: init_simps segmentation_config_def example_config_def labelled_cloud_def
      label_simps)

text \<open>
  Claim C7, amended: with labels present and \<open>n\<close> classes in the label definition, the
  blend fails with IndexError exactly when some label lies outside \<open>[-n, n)\<close>; a label
  \<open>l\<close> in \<open>[-n, -1]\<close> is accepted and blended with the colour of class \<open>n + l\<close>.
\<close>

theorem label_colors_index_error:
  assumes "labels pc = Some ls"
  shows "(label_colors pc = Inl IndexError
           \<longleftrightarrow> (\<exists>l\<in>set ls. l < - int (length (label_definition pc))
                           \<or> int (length (label_definition pc)) \<le> l))
       \<and> (colors pc = Some base \<and> label_color_map pc = Some m \<and> mix_ratio pc = Some r
           \<and> length m = length (label_definition pc) \<and> length base = length ls
           \<and> (\<forall>l\<in>set ls. - int (length m) \<le> l \<and> l < int (length m)) \<longrightarrow>
          label_colors pc = Inr (Some (map2 (blend r)
            (map (\<lambda>l. m ! nat (if l < 0 then l + int (length m) else l)) ls) base)))"
proof -
  have "(\<exists>l\<in>set ls. \<not> index_in_range (length (label_definition pc)) l)
        \<longleftrightarrow> (\<exists>l\<in>set ls. l < - int (length (label_definition pc))
                           \<or> int (length (label_definition pc)) \<le> l)"
    by (simp add: index_in_range_def de_Morgan_conj not_le not_less)
  then have 1: "label_colors pc = Inl IndexError
           \<longleftrightarrow> (\<exists>l\<in>set ls. l < - int (length (label_definition pc))
                           \<or> int (length (label_definition pc)) \<le> l)"
    using label_colors_IndexError [OF assms] by simp
  have 2: "label_colors pc = Inr (Some (map2 (blend r)
            (map (\<lambda>l. m ! nat (if l < 0 then l + int (length m) else l)) ls) base))"
    if "colors pc = Some base \<and> label_color_map pc = Some m \<and> mix_ratio pc = Some r
           \<and> length m = length (label_definition pc) \<and> length base = length ls
           \<and> (\<forall>l\<in>set ls. - int (length m) \<le> l \<and> l < int (length m))"
  proof -
    have "\<forall>l\<in>set ls. index_in_range (length m) l"
      unfolding index_in_range_def using that by blast
    then have "label_colors pc
        = Inr (Some (map2 (blend r) (map (\<lambda>l. m ! wrap_index (length m) l) ls) base))"
      using assms that by (intro label_colors_in_range) simp_all
    then show ?thesis by (simp add: wrap_index_def)
  qed
  from 1 2 show ?thesis by blast
qed

theorem label_colors_index_error_witness:
  "labels (labelled_cloud\<lparr>labels := Some [0, 2]\<rparr>) = Some [0, 2]
   \<and> label_colors (labelled_cloud\<lparr>labels := Some [0, 2]\<rparr>) = Inl IndexError
   \<and> labels (labelled_cloud\<lparr>labels := Some [- 3]\<rparr>) = Some [- 3]
   \<and> label_colors (labelled_cloud\<lparr>labels := Some [- 3]\<rparr>) = Inl IndexError
   \<and> labels labelled_cloud = Some [- 1]
   \<and> label_colors labelled_cloud \<noteq> Inl IndexError"
proof -
  have a: "labels (labelled_cloud\<lparr>labels := Some [0, 2]\<rparr>) = Some [0, 2]"
    and b: "labels (labelled_cloud\<lparr>labels := Some [- 3]\<rparr>) = Some [- 3]"
    and c: "labels labelled_cloud = Some [- 1]"
    by (simp_all add: labelled_cloud_def)
  have n: "length (label_definition labelled_cloud) = 2"
    by (simp add: labelled_cloud_def)
  show ?thesis
    using a b c label_colors_index_error [OF a, THEN conjunct1]
      label_colors_index_error [OF b, THEN conjunct1]
      label_colors_index_error [OF c, THEN conjunct1]
    by (simp add: n)
qed

subsection \<open>Loading colours of another length\<close>












subsection \<open>Counting the labels\<close>

lemma int2label_fold_Some:
  assumes "fold (\<lambda>(label, ind) m. m(ind \<mapsto> label)) ld m0 ind = Some name"
  shows "(name, ind) \<in> set ld \<or> m0 ind = Some name"
  using assms
proof (induction ld arbitrary: m0)
  case Nil
  then show ?case by simp
next
  case (Cons p ld)
  obtain l i where p: "p = (l, i)" by (cases p)
  from Cons.prems have "fold (\<lambda>(label, ind) m. m(ind \<mapsto> label)) ld (m0(i \<mapsto> l)) ind = Some name"
    by (simp only: p fold_Cons comp_apply prod.case)
  from Cons.IH [OF this] show ?case
    by (auto simp: p split: if_splits)
qed

lemma int2label_fold_dom:
  assumes "ind \<in> snd ` set ld \<or> ind \<in> dom m0"
  shows "ind \<in> dom (fold (\<lambda>(label, ind) m. m(ind \<mapsto> label)) ld m0)"
  using assms
proof (induction ld arbitrary: m0)
  case Nil
  then show ?case by simp
next
  case (Cons p ld)
  obtain l i where p: "p = (l, i)" by (cases p)
  have "ind \<in> snd ` set ld \<or> ind \<in> dom (m0(i \<mapsto> l))"
    using Cons.prems by (auto simp: p)
  from Cons.IH [OF this] show ?case
    by (simp only: p fold_Cons comp_apply prod.case)
qed

lemma int2label_Some: "int2label pc ind = Some name \<Longrightarrow> (name, ind) \<in> set (label_definition pc)"
  using int2label_fold_Some [of "label_definition pc" Map.empty ind name]
  by (simp add: int2label_def)

lemma int2label_defined:
  "ind \<in> snd ` set (label_definition pc) \<Longrightarrow> \<exists>name. int2label pc ind = Some name"
  using int2label_fold_dom [of ind "label_definition pc" Map.empty]
  by (auto simp: int2label_def)

lemma sum_list_update:
  assumes "distinct (map fst al)" and "map_of al k = Some v0"
  shows "sum_list (map snd (AList.update k v al)) + v0 = sum_list (map snd al) + (v::nat)"
  using assms
proof (induction al)
  case Nil
  then show ?case by simp
next
  case (Cons p al)
  show ?case
  proof (cases "fst p = k")
    case True
    then have "snd p = v0" using Cons.prems(2) by (cases p) simp
    then show ?thesis using True by (cases p) simp
  next
    case False
    then have "map_of al k = Some v0" using Cons.prems(2) by (cases p) (simp split: if_splits)
    moreover have "distinct (map fst al)" using Cons.prems(1) by simp
    ultimately have "sum_list (map snd (AList.update k v al)) + v0 = sum_list (map snd al) + v"
      by (rule Cons.IH [rotated])
    then show ?thesis using False by (cases p) simp
  qed
qed

lemma count_loop_result:
  assumes "distinct (map fst counter)" and "distinct (map fst pairs)"
    and "\<forall>a\<in>fst ` set pairs. \<forall>b\<in>fst ` set pairs. i2l a = i2l b \<longrightarrow> a = b"
    and "\<forall>ind\<in>fst ` set pairs. \<exists>name. i2l ind = Some name \<and> map_of counter name = Some 0"
  shows "\<exists>F. count_loop i2l pairs counter = Inr F \<and> map fst F = map fst counter
           \<and> sum_list (map snd F) = sum_list (map snd counter) + sum_list (map snd pairs)
           \<and> (\<forall>k. (\<forall>ind\<in>fst ` set pairs. i2l ind \<noteq> Some k) \<longrightarrow> map_of F k = map_of counter k)
           \<and> (\<forall>(ind, c)\<in>set pairs. \<exists>name. i2l ind = Some name \<and> map_of F name = Some c)"
  using assms
proof (induction pairs arbitrary: counter)
  case Nil
  then show ?case by simp
next
  case (Cons p pairs)
  obtain ind c where p: "p = (ind, c)" by (cases p)
  obtain name where name: "i2l ind = Some name" "map_of counter name = Some 0"
    using Cons.prems(4) by (auto simp: p)
  let ?c = "AList.update name c counter"
  have key: "name \<in> set (map fst counter)"
    using name(2) by (metis map_of_eq_None_iff option.distinct(1) set_map)
  have keys: "map fst ?c = map fst counter"
    using key by (simp add: update_keys)
  have d: "distinct (map fst ?c)" using Cons.prems(1) by (rule distinct_update)
  have sum: "sum_list (map snd ?c) = sum_list (map snd counter) + c"
    using sum_list_update [OF Cons.prems(1) name(2), of c] by simp
  have other: "i2l ind' \<noteq> Some name" if "ind' \<in> fst ` set pairs" for ind'
  proof
    assume "i2l ind' = Some name"
    moreover have "ind' \<in> fst ` set (p # pairs)" "ind \<in> fst ` set (p # pairs)"
      using that by (simp_all add: p)
    ultimately have "ind' = ind"
      using Cons.prems(3) [rule_format, of ind' ind] name(1) by simp
    then show False using Cons.prems(2) that by (simp add: p)
  qed
  have zero: "\<forall>ind'\<in>fst ` set pairs. \<exists>n. i2l ind' = Some n \<and> map_of ?c n = Some 0"
  proof
    fix ind' assume i: "ind' \<in> fst ` set pairs"
    then obtain n where n: "i2l ind' = Some n" "map_of counter n = Some 0"
      using Cons.prems(4) by (auto simp: p)
    then have "n \<noteq> name" using other [OF i] by auto
    then show "\<exists>n. i2l ind' = Some n \<and> map_of ?c n = Some 0"
      using n by (auto simp: update_conv')
  qed
  have "distinct (map fst pairs)" using Cons.prems(2) by simp
  moreover have "\<forall>a\<in>fst ` set pairs. \<forall>b\<in>fst ` set pairs. i2l a = i2l b \<longrightarrow> a = b"
    using Cons.prems(3) by simp
  ultimately obtain F where F: "count_loop i2l pairs ?c = Inr F" "map fst F = map fst ?c"
    "sum_list (map snd F) = sum_list (map snd ?c) + sum_list (map snd pairs)"
    "\<forall>k. (\<forall>ind\<in>fst ` set pairs. i2l ind \<noteq> Some k) \<longrightarrow> map_of F k = map_of ?c k"
    "\<forall>(ind, c)\<in>set pairs. \<exists>name. i2l ind = Some name \<and> map_of F name = Some c"
    using Cons.IH [OF d _ _ zero] by blast
  have 1: "count_loop i2l (p # pairs) counter = Inr F"
    using F(1) name(1) by (simp add: p)
  have 2: "map fst F = map fst counter" using F(2) keys by simp
  have 3: "sum_list (map snd F) = sum_list (map snd counter) + sum_list (map snd (p # pairs))"
    using F(3) sum by (simp add: p)
  have 4: "\<forall>k. (\<forall>ind\<in>fst ` set (p # pairs). i2l ind \<noteq> Some k) \<longrightarrow> map_of F k = map_of counter k"
  proof (intro allI impI)
    fix k assume k: "\<forall>ind\<in>fst ` set (p # pairs). i2l ind \<noteq> Some k"
    then have "k \<noteq> name" using name(1) by (auto simp: p)
    moreover have "map_of F k = map_of ?c k" using F(4) k by simp
    ultimately show "map_of F k = map_of counter k" by (simp add: update_conv')
  qed
  have "map_of F name = map_of ?c name" using F(4) other by blast
  then have here: "map_of F name = Some c" by (simp add: update_conv')
  have 5: "\<forall>(ind, c)\<in>set (p # pairs). \<exists>name. i2l ind = Some name \<and> map_of F name = Some c"
    using F(5) here name(1) by (auto simp: p)
  from 1 2 3 4 5 show ?case by blast
qed

lemma np_unique_counts_props:
  "map fst (np_unique_counts ls) = sort (remdups ls)"
  "distinct (map fst (np_unique_counts ls))"
  "fst ` set (np_unique_counts ls) = set ls"
  "sum_list (map snd (np_unique_counts ls)) = length ls"
  "set (np_unique_counts ls) = (\<lambda>i. (i, count_list ls i)) ` set ls"
proof -
  let ?idx = "sort (remdups ls)"
  have eq: "np_unique_counts ls = map (\<lambda>i. (i, count_list ls i)) ?idx"
    by (simp add: np_unique_counts_def Let_def zip_map2 zip_same_conv_map)
  show 1: "map fst (np_unique_counts ls) = ?idx"
    by (simp add: eq comp_def)
  show "distinct (map fst (np_unique_counts ls))"
    unfolding 1 by simp
  show "fst ` set (np_unique_counts ls) = set ls"
    using 1 by (metis set_map set_remdups set_sort)
  have "sum_list (map snd (np_unique_counts ls)) = sum_list (map (count_list ls) ?idx)"
    by (simp add: eq comp_def)
  also have "\<dots> = sum (count_list ls) (set ?idx)"
    by (rule sum_list_distinct_conv_sum_set) simp
  also have "\<dots> = length ls"
    by (simp add: sum_count_set)
  finally show "sum_list (map snd (np_unique_counts ls)) = length ls" .
  show "set (np_unique_counts ls) = (\<lambda>i. (i, count_list ls i)) ` set ls"
    by (simp add: eq)
qed

lemma label_counts_present:
  assumes "labels pc = Some ls" and "label_definition pc \<noteq> []"
    and "distinct (map fst (label_definition pc))"
    and "set ls \<subseteq> snd ` set (label_definition pc)"
  shows "\<exists>counter. label_counts pc = Inr (Some counter)
         \<and> map fst counter = map fst (label_definition pc)
         \<and> (\<forall>(name, ind)\<in>set (label_definition pc).
               ind \<notin> set ls \<longrightarrow> map_of counter name = Some 0)
         \<and> (\<forall>ind\<in>set ls. \<exists>name. (name, ind) \<in> set (label_definition pc)
                                  \<and> map_of counter name = Some (count_list ls ind))
         \<and> sum_list (map snd counter) = length ls"
proof -
  let ?ld = "label_definition pc"
  let ?c0 = "map (\<lambda>(k, v). (k, 0::nat)) ?ld"
  let ?pairs = "np_unique_counts ls"
  have ne: "?ld \<noteq> []" by (rule assms(2))
  have k0: "map fst ?c0 = map fst ?ld" by (simp add: comp_def case_prod_unfold)
  have s0: "sum_list (map snd ?c0) = 0" by (simp add: comp_def case_prod_unfold)
  have d0: "distinct (map fst ?c0)" unfolding k0 by (rule assms(3))
  have z0: "map_of ?c0 name = Some 0" if "(name, ind) \<in> set ?ld" for name ind
  proof -
    have "(name, 0) \<in> set ?c0" using that by force
    then show ?thesis using d0 by simp
  qed
  have inj: "\<forall>a\<in>fst ` set ?pairs. \<forall>b\<in>fst ` set ?pairs. int2label pc a = int2label pc b \<longrightarrow> a = b"
  proof (intro ballI impI)
    fix a b assume a: "a \<in> fst ` set ?pairs" and e: "int2label pc a = int2label pc b"
    then have "a \<in> snd ` set ?ld" using assms(4) by (auto simp: np_unique_counts_props(3))
    then obtain n where n: "int2label pc a = Some n" using int2label_defined by blast
    then have "(n, a) \<in> set ?ld" "(n, b) \<in> set ?ld"
      using e by (simp_all add: int2label_Some)
    then show "a = b" using assms(3) by (rule eq_key_imp_eq_value [rotated])
  qed
  have def: "\<forall>ind\<in>fst ` set ?pairs. \<exists>name. int2label pc ind = Some name \<and> map_of ?c0 name = Some 0"
  proof
    fix ind assume "ind \<in> fst ` set ?pairs"
    then have "ind \<in> snd ` set ?ld" using assms(4) by (auto simp: np_unique_counts_props(3))
    then obtain n where n: "int2label pc ind = Some n" using int2label_defined by blast
    then show "\<exists>name. int2label pc ind = Some name \<and> map_of ?c0 name = Some 0"
      using z0 [OF int2label_Some [OF n]] by simp
  qed
  obtain F where F: "count_loop (int2label pc) ?pairs ?c0 = Inr F" "map fst F = map fst ?c0"
    "sum_list (map snd F) = sum_list (map snd ?c0) + sum_list (map snd ?pairs)"
    "\<forall>k. (\<forall>ind\<in>fst ` set ?pairs. int2label pc ind \<noteq> Some k) \<longrightarrow> map_of F k = map_of ?c0 k"
    "\<forall>(ind, c)\<in>set ?pairs. \<exists>name. int2label pc ind = Some name \<and> map_of F name = Some c"
    using count_loop_result [OF d0 np_unique_counts_props(2) inj def] by blast
  have 1: "label_counts pc = Inr (Some F)"
    using assms(1) ne F(1) by (simp add: label_counts_def Let_def)
  have 2: "map fst F = map fst ?ld" using F(2) k0 by simp
  have 3: "\<forall>(name, ind)\<in>set ?ld. ind \<notin> set ls \<longrightarrow> map_of F name = Some 0"
  proof (intro ballI, clarify)
    fix name ind assume m: "(name, ind) \<in> set ?ld" and n: "ind \<notin> set ls"
    have "int2label pc ind' \<noteq> Some name" if "ind' \<in> fst ` set ?pairs" for ind'
    proof
      assume "int2label pc ind' = Some name"
      then have "(name, ind') \<in> set ?ld" by (rule int2label_Some)
      then have "ind' = ind" using m assms(3) by (metis eq_key_imp_eq_value)
      then show False using that n by (simp add: np_unique_counts_props(3))
    qed
    then have "map_of F name = map_of ?c0 name" using F(4) by blast
    then show "map_of F name = Some 0" using z0 [OF m] by simp
  qed
  have 4: "\<forall>ind\<in>set ls. \<exists>name. (name, ind) \<in> set ?ld \<and> map_of F name = Some (count_list ls ind)"
  proof
    fix ind assume "ind \<in> set ls"
    then have "(ind, count_list ls ind) \<in> set ?pairs"
      by (simp add: np_unique_counts_props(5))
    then obtain name where "int2label pc ind = Some name" "map_of F name = Some (count_list ls ind)"
      using F(5) by blast
    then show "\<exists>name. (name, ind) \<in> set ?ld \<and> map_of F name = Some (count_list ls ind)"
      using int2label_Some by blast
  qed
  have 5: "sum_list (map snd F) = length ls"
    using F(3) s0 by (simp add: np_unique_counts_props(4))
  from 1 2 3 4 5 show ?thesis by blast
qed

text \<open>
  The constructor does not compare the number of labels with the number of points, and
  the counts come from the labels alone. Three points of three classes loaded with the
  single label 1 (segmentation on, buffers requested; the blend broadcasts the one label
  colour): the cloud is built, and its counts add up to 1, not to the 3 points.
\<close>

theorem label_counts_fewer_labels_counterexample:
  "map_sum id (\<lambda>pc. (length (points pc), labels pc, label_counts pc))
     (fst (PointCloud_init segmentation_config [(0, 0, 5), (1, 2, 3), (4, 4, 4)]
             [(''unassigned'', 0), (''car'', 1), (''tree'', 2)] None (Some [1]) None None True []))
     = Inr (3, Some [1], Inr (Some [(''unassigned'', 0), (''car'', 1), (''tree'', 0)]))
   \<and> sum_list (map snd [(''unassigned'', 0 :: nat), (''car'', 1), (''tree'', 0)]) = 1
   \<and> (1 :: nat) \<noteq> 3"
  by (simp add: init_simps segmentation_config_def example_config_def label_simps
      label_counts_def np_unique_counts_def int2label_def list_update_append)

text \<open>
  Claim C6, amended: with labels present, a label definition of at least one class (a
  dict, so its names are distinct), and every label value the index of a class,
  \<open>label_counts\<close> returns a mapping with exactly the class names of the definition, in
  which a class whose index no label carries has the count 0 and every index that occurs
  has a class holding its number of occurrences, and the counts add up to the number of
  labels, which is the number of points when there is one label per point. Without
  labels, and so for every cloud constructed with segmentation off, and for an empty
  label definition, it returns \<open>None\<close>.
\<close>

theorem label_counts_total:
  "(labels pc = None \<longrightarrow> label_counts pc = Inr None)
   \<and> (label_definition pc = [] \<longrightarrow> label_counts pc = Inr None)
   \<and> (PointCloud_init cfg pts ld cols seg it ir wb gl = (Inr pc, gl') \<and> \<not> SEGMENTATION cfg \<longrightarrow>
        label_counts pc = Inr None)
   \<and> (labels pc = Some ls \<and> label_definition pc \<noteq> []
        \<and> distinct (map fst (label_definition pc))
        \<and> set ls \<subseteq> snd ` set (label_definition pc) \<longrightarrow>
       (\<exists>counter. label_counts pc = Inr (Some counter)
          \<and> map fst counter = map fst (label_definition pc)
          \<and> (\<forall>(name, ind)\<in>set (label_definition pc).
                ind \<notin> set ls \<longrightarrow> map_of counter name = Some 0)
          \<and> (\<forall>ind\<in>set ls. \<exists>name. (name, ind) \<in> set (label_definition pc)
                                   \<and> map_of counter name = Some (count_list ls ind))
          \<and> sum_list (map snd counter) = length ls
          \<and> (length ls = length (points pc) \<longrightarrow>
                sum_list (map snd counter) = length (points pc))))"
proof (intro conjI impI)
  assume "labels pc = None"
  then show "label_counts pc = Inr None" by (simp add: label_counts_def)
next
  assume "label_definition pc = []"
  then show "label_counts pc = Inr None"
    by (simp add: label_counts_def split: option.splits)
next
  assume a: "PointCloud_init cfg pts ld cols seg it ir wb gl = (Inr pc, gl') \<and> \<not> SEGMENTATION cfg"
  then have "labels pc = None"
    using PointCloud_init_fields [of cfg pts ld cols seg it ir wb gl pc gl'] by metis
  then show "label_counts pc = Inr None" by (simp add: label_counts_def)
next
  assume a: "labels pc = Some ls \<and> label_definition pc \<noteq> []
        \<and> distinct (map fst (label_definition pc))
        \<and> set ls \<subseteq> snd ` set (label_definition pc)"
  then obtain counter where c: "label_counts pc = Inr (Some counter)"
    "map fst counter = map fst (label_definition pc)"
    "\<forall>(name, ind)\<in>set (label_definition pc). ind \<notin> set ls \<longrightarrow> map_of counter name = Some 0"
    "\<forall>ind\<in>set ls. \<exists>name. (name, ind) \<in> set (label_definition pc)
                                   \<and> map_of counter name = Some (count_list ls ind)"
    "sum_list (map snd counter) = length ls"
    using label_counts_present [of pc ls] by blast
  have "length ls = length (points pc) \<longrightarrow> sum_list (map snd counter) = length (points pc)"
    using c(5) by simp
  with c show "\<exists>counter. label_counts pc = Inr (Some counter)
          \<and> map fst counter = map fst (label_definition pc)
          \<and> (\<forall>(name, ind)\<in>set (label_definition pc).
                ind \<notin> set ls \<longrightarrow> map_of counter name = Some 0)
          \<and> (\<forall>ind\<in>set ls. \<exists>name. (name, ind) \<in> set (label_definition pc)
                                   \<and> map_of counter name = Some (count_list ls ind))
          \<and> sum_list (map snd counter) = length ls
          \<and> (length ls = length (points pc) \<longrightarrow>
                sum_list (map snd counter) = length (points pc))"
    by blast
qed

theorem label_counts_total_witness:
  "labels counted_cloud = Some [1, 0, 1]
   \<and> label_definition counted_cloud \<noteq> []
   \<and> distinct (map fst (label_definition counted_cloud))
   \<and> set [1, 0, 1] \<subseteq> snd ` set (label_definition counted_cloud)
   \<and> length [1, 0, 1 :: int] = length (points counted_cloud)
   \<and> label_counts counted_cloud = Inr (Some [(''unassigned'', 1), (''car'', 2), (''tree'', 0)])
   \<and> (\<exists>counter. label_counts counted_cloud = Inr (Some counter)
          \<and> map fst counter = [''unassigned'', ''car'', ''tree'']
          \<and> sum_list (map snd counter) = length [1, 0, 1 :: int]
          \<and> sum_list (map snd counter) = length (points counted_cloud))
   \<and> label_counts (counted_cloud\<lparr>labels := None\<rparr>) = Inr None"
proof -
  have h: "labels counted_cloud = Some [1, 0, 1]" "label_definition counted_cloud \<noteq> []"
    "distinct (map fst (label_definition counted_cloud))"
    "set [1, 0, 1] \<subseteq> snd ` set (label_definition counted_cloud)"
    by (simp_all add: counted_cloud_def labelled_cloud_def)
  have len: "length [1, 0, 1 :: int] = length (points counted_cloud)"
    by (simp add: counted_cloud_def)
  have ld: "map fst (label_definition counted_cloud) = [''unassigned'', ''car'', ''tree'']"
    by (simp add: counted_cloud_def)
  have ev: "label_counts counted_cloud = Inr (Some [(''unassigned'', 1), (''car'', 2), (''tree'', 0)])"
    by (simp add: label_counts_def counted_cloud_def labelled_cloud_def np_unique_counts_def
        int2label_def Let_def)
  note inst = label_counts_total [of counted_cloud _ _ _ _ _ _ _ _ _ _ "[1, 0, 1]"]
  have "\<exists>counter. label_counts counted_cloud = Inr (Some counter)
          \<and> map fst counter = map fst (label_definition counted_cloud)
          \<and> (\<forall>(name, ind)\<in>set (label_definition counted_cloud).
                ind \<notin> set [1, 0, 1] \<longrightarrow> map_of counter name = Some 0)
          \<and> (\<forall>ind\<in>set [1, 0, 1]. \<exists>name. (name, ind) \<in> set (label_definition counted_cloud)
                                   \<and> map_of counter name = Some (count_list [1, 0, 1] ind))
          \<and> sum_list (map snd counter) = length [1, 0, 1 :: int]
          \<and> (length [1, 0, 1 :: int] = length (points counted_cloud) \<longrightarrow>
                sum_list (map snd counter) = length (points counted_cloud))"
    by (rule inst [THEN conjunct2, THEN conjunct2, THEN conjunct2, THEN mp]) (intro conjI h)
  then obtain counter where c: "label_counts counted_cloud = Inr (Some counter)"
    "map fst counter = map fst (label_definition counted_cloud)"
    "sum_list (map snd counter) = length [1, 0, 1 :: int]"
    "length [1, 0, 1 :: int] = length (points counted_cloud) \<longrightarrow>
                sum_list (map snd counter) = length (points counted_cloud)"
    by (elim exE conjE)
  have n: "label_counts (counted_cloud\<lparr>labels := None\<rparr>) = Inr None"
    by (rule label_counts_total [THEN conjunct1, THEN mp]) simp
  have ex: "\<exists>counter. label_counts counted_cloud = Inr (Some counter)
          \<and> map fst counter = [''unassigned'', ''car'', ''tree'']
          \<and> sum_list (map snd counter) = length [1, 0, 1 :: int]
          \<and> sum_list (map snd counter) = length (points counted_cloud)"
    by (rule exI [of _ counter]) (intro conjI c(1) c(2) [unfolded ld] c(3) c(4) [THEN mp] len)
  show ?thesis by (intro conjI h len ev ex n)
qed

end
